theory Spec2Isabelle
  imports Main "HOL-Library.Word"
begin

unbundle bit_operations_syntax

section \<open>Machine types\<close>

type_synonym u8 = "8 word"
type_synonym u16 = "16 word"
type_synonym u32 = "32 word"
type_synonym ulong = "64 word"

text \<open>\<^verbatim>\<open>struct in_addr\<close>: the 32 bits of \<^verbatim>\<open>s_addr\<close>.\<close>

type_synonym in_addr = u32

section \<open>src/mod/pool4.c\<close>

subsection \<open>Data\<close>

text \<open>
  \<^verbatim>\<open>struct addr_section\<close>. The \<^verbatim>\<open>free_ports\<close> list of \<^verbatim>\<open>struct free_port\<close> is the list
  of its port numbers, head first.
\<close>

record addr_section =
  next_port :: u32
  max_port :: u32
  free_ports :: "u16 list"

record pool_node =
  address :: in_addr
  odd_low :: addr_section
  even_low :: addr_section
  odd_high :: addr_section
  even_high :: addr_section

text \<open>\<^verbatim>\<open>struct ipv4_tuple_address\<close>: an address and a 16-bit layer-4 identifier.\<close>

record ipv4_tuple_address =
  tuple_address :: in_addr
  l4_id :: u16

datatype response_code =
  RESPONSE_SUCCESS | RESPONSE_MISSING_PARAM | RESPONSE_ALLOC_FAILED | RESPONSE_NOT_FOUND

datatype error_code =
  ERR_NULL | ERR_L4PROTO | ERR_ALLOC_FAILED | ERR_POOL4_EMPTY | ERR_NOT_FOUND
  | ERR_POOL4_INCOMPLETE_INDEX

text \<open>What \<^verbatim>\<open>log_err\<close> and \<^verbatim>\<open>log_crit\<close> emit: the level and the error code.\<close>

datatype log_msg = Log_err error_code | Log_crit error_code

text \<open>
  The module's global \<^verbatim>\<open>pools\<close>, each address list in list order. \<open>node_blocks\<close> counts
  the \<^verbatim>\<open>struct pool_node\<close> blocks obtained from \<^verbatim>\<open>kmalloc\<close> and not yet given to
  \<^verbatim>\<open>kfree\<close>; \<open>klog\<close> is the kernel log, oldest message first. The spin locks are left
  out: every function is modelled as running alone.
\<close>

record pool4_state =
  udp :: "pool_node list"
  tcp :: "pool_node list"
  icmp :: "pool_node list"
  node_blocks :: nat
  klog :: "log_msg list"

text \<open>A pointer to one of the three \<^verbatim>\<open>struct address_list\<close> of \<^verbatim>\<open>pools\<close>.\<close>

datatype pool_ptr = Pools_udp | Pools_tcp | Pools_icmp

fun pool_list :: "pool_ptr \<Rightarrow> pool4_state \<Rightarrow> pool_node list" where
  "pool_list Pools_udp s = udp s"
| "pool_list Pools_tcp s = tcp s"
| "pool_list Pools_icmp s = icmp s"

fun pool_list_update :: "pool_ptr \<Rightarrow> (pool_node list \<Rightarrow> pool_node list) \<Rightarrow> pool4_state \<Rightarrow> pool4_state" where
  "pool_list_update Pools_udp f s = s\<lparr>udp := f (udp s)\<rparr>"
| "pool_list_update Pools_tcp f s = s\<lparr>tcp := f (tcp s)\<rparr>"
| "pool_list_update Pools_icmp f s = s\<lparr>icmp := f (icmp s)\<rparr>"

text \<open>A pointer to one of the four sections of a node.\<close>

datatype section_ptr = Odd_low | Even_low | Odd_high | Even_high

fun section_of :: "pool_node \<Rightarrow> section_ptr \<Rightarrow> addr_section" where
  "section_of n Odd_low = odd_low n"
| "section_of n Even_low = even_low n"
| "section_of n Odd_high = odd_high n"
| "section_of n Even_high = even_high n"

fun section_update :: "section_ptr \<Rightarrow> addr_section \<Rightarrow> pool_node \<Rightarrow> pool_node" where
  "section_update Odd_low x n = n\<lparr>odd_low := x\<rparr>"
| "section_update Even_low x n = n\<lparr>even_low := x\<rparr>"
| "section_update Odd_high x n = n\<lparr>odd_high := x\<rparr>"
| "section_update Even_high x n = n\<lparr>even_high := x\<rparr>"

definition log_msg_add :: "log_msg \<Rightarrow> pool4_state \<Rightarrow> pool4_state" where
  "log_msg_add m s = s\<lparr>klog := klog s @ [m]\<rparr>"

subsection \<open>Protocol numbers and byte order\<close>

definition IPPROTO_ICMP :: u8 where "IPPROTO_ICMP = 1"
definition IPPROTO_TCP :: u8 where "IPPROTO_TCP = 6"
definition IPPROTO_UDP :: u8 where "IPPROTO_UDP = 17"
definition IPPROTO_ICMPV6 :: u8 where "IPPROTO_ICMPV6 = 58"

text \<open>
  \<^verbatim>\<open>be16_to_cpu\<close> and \<^verbatim>\<open>ntohs\<close> are the identity on a big-endian host and exchange the
  two bytes on a little-endian one; the host's byte order is a parameter.
\<close>

definition swab16 :: "u16 \<Rightarrow> u16" where
  "swab16 x = push_bit 8 x OR drop_bit 8 x"

definition be16_to_cpu :: "bool \<Rightarrow> u16 \<Rightarrow> u16" where
  "be16_to_cpu big_endian x = (if big_endian then x else swab16 x)"

subsection \<open>Functions\<close>

text \<open>\<^verbatim>\<open>get_pool\<close>: \<open>None\<close> is the NULL it returns, after its log, for an unknown protocol.\<close>

definition get_pool :: "u8 \<Rightarrow> pool4_state \<Rightarrow> pool_ptr option \<times> pool4_state" where
  "get_pool l4protocol s =
     (if l4protocol = IPPROTO_UDP then (Some Pools_udp, s)
      else if l4protocol = IPPROTO_TCP then (Some Pools_tcp, s)
      else if l4protocol = IPPROTO_ICMP \<or> l4protocol = IPPROTO_ICMPV6 then (Some Pools_icmp, s)
      else (None, log_msg_add (Log_crit ERR_L4PROTO) s))"

text \<open>
  \<^verbatim>\<open>get_pool_node\<close>: the first node of the list whose address equals the given one, as its
  position in the list; \<open>None\<close> is NULL.
\<close>

fun get_pool_node :: "pool_node list \<Rightarrow> in_addr \<Rightarrow> nat option" where
  "get_pool_node [] a = None"
| "get_pool_node (node # rest) a =
     (if address node = a then Some 0 else map_option Suc (get_pool_node rest a))"

text \<open>
  \<^verbatim>\<open>get_section\<close>. The 16-bit \<^verbatim>\<open>l4_id\<close> is promoted to \<^verbatim>\<open>int\<close> before it is compared
  and divided, so the tests are on its unsigned value.
\<close>

definition get_section :: "ipv4_tuple_address \<Rightarrow> section_ptr" where
  "get_section a =
     (if unat (l4_id a) < 1024
      then (if unat (l4_id a) mod 2 = 0 then Even_low else Odd_low)
      else (if unat (l4_id a) mod 2 = 0 then Even_high else Odd_high))"

text \<open>
  \<^verbatim>\<open>extract_any_port\<close>: \<open>None\<close> is \<^verbatim>\<open>false\<close> (nothing written); otherwise the port written
  to \<^verbatim>\<open>*port\<close> and the section as it is left. \<^verbatim>\<open>*port\<close> is a \<^verbatim>\<open>__u16\<close>, so the 32-bit
  \<^verbatim>\<open>next_port\<close> is truncated by the assignment.
\<close>

definition extract_any_port :: "addr_section \<Rightarrow> (u16 \<times> addr_section) option" where
  "extract_any_port section =
     (case free_ports section of
        p # ps \<Rightarrow> Some (p, section\<lparr>free_ports := ps\<rparr>)
      | [] \<Rightarrow>
          if next_port section > max_port section then None
          else Some (ucast (next_port section), section\<lparr>next_port := next_port section + 2\<rparr>))"

text \<open>\<^verbatim>\<open>pool4_init(false)\<close>: three empty lists.\<close>

definition pool4_init :: pool4_state where
  "pool4_init = \<lparr>udp = [], tcp = [], icmp = [], node_blocks = 0, klog = []\<rparr>"

text \<open>
  \<^verbatim>\<open>destroy_pool_node\<close> on the node at position \<open>i\<close> of a pool: the node leaves the list,
  its free ports and the node itself are freed.
\<close>

definition destroy_pool_node :: "pool_ptr \<Rightarrow> nat \<Rightarrow> pool4_state \<Rightarrow> pool4_state" where
  "destroy_pool_node pool i s =
     (pool_list_update pool (\<lambda>l. take i l @ drop (Suc i) l) s)\<lparr>node_blocks := node_blocks s - 1\<rparr>"

text \<open>\<^verbatim>\<open>pool4_destroy\<close>: every node of every pool is destroyed.\<close>

definition pool4_destroy :: "pool4_state \<Rightarrow> pool4_state" where
  "pool4_destroy s =
     s\<lparr>udp := [], tcp := [], icmp := [],
       node_blocks := node_blocks s - (length (udp s) + length (tcp s) + length (icmp s))\<rparr>"

definition init_section :: "u32 \<Rightarrow> u32 \<Rightarrow> addr_section" where
  "init_section next_port' max_port' =
     \<lparr>next_port = next_port', max_port = max_port', free_ports = []\<rparr>"

definition pool_count :: nat where
  "pool_count = 3"

text \<open>
  The first loop of \<^verbatim>\<open>pool4_register\<close>. \<open>kmalloc_ok i\<close> tells whether the \<open>i\<close>-th
  \<^verbatim>\<open>kmalloc\<close> of the call succeeds. \<open>kfree_nodes i\<close> is the inner loop that frees
  \<^verbatim>\<open>node[i - 1]\<close> down to \<^verbatim>\<open>node[0]\<close>.
\<close>

fun kfree_nodes :: "nat \<Rightarrow> pool4_state \<Rightarrow> pool4_state" where
  "kfree_nodes 0 s = s"
| "kfree_nodes (Suc i) s = kfree_nodes i (s\<lparr>node_blocks := node_blocks s - 1\<rparr>)"

function kmalloc_nodes :: "(nat \<Rightarrow> bool) \<Rightarrow> nat \<Rightarrow> pool4_state \<Rightarrow> bool \<times> pool4_state" where
  "kmalloc_nodes kmalloc_ok i s =
     (if i < pool_count then
        (if kmalloc_ok i
         then kmalloc_nodes kmalloc_ok (i + 1) (s\<lparr>node_blocks := node_blocks s + 1\<rparr>)
         else (False, log_msg_add (Log_err ERR_ALLOC_FAILED) (kfree_nodes i s)))
      else (True, s))"
  by pat_completeness auto
termination
  by (relation "measure (\<lambda>(k, i, s). pool_count - i)") auto

declare kmalloc_nodes.simps [simp del]

text \<open>The node that the second loop of \<^verbatim>\<open>pool4_register\<close> writes into each block.\<close>

definition new_pool_node :: "in_addr \<Rightarrow> pool_node" where
  "new_pool_node a =
     \<lparr>address = a,
      odd_low = init_section 1 1023,
      even_low = init_section 0 1022,
      odd_high = init_section 1025 65535,
      even_high = init_section 1024 65534\<rparr>"

text \<open>
  \<^verbatim>\<open>pool4_register\<close>. The \<^verbatim>\<open>pool\<close> array is tcp, udp, icmp in this order, and
  \<^verbatim>\<open>list_add(new, head->prev)\<close> links the node at the end of the list.
\<close>

definition pool4_register ::
  "(nat \<Rightarrow> bool) \<Rightarrow> in_addr option \<Rightarrow> pool4_state \<Rightarrow> response_code \<times> pool4_state" where
  "pool4_register kmalloc_ok address' s =
     (case address' of
        None \<Rightarrow> (RESPONSE_MISSING_PARAM, log_msg_add (Log_err ERR_NULL) s)
      | Some a \<Rightarrow>
          (case kmalloc_nodes kmalloc_ok 0 s of
             (False, s1) \<Rightarrow> (RESPONSE_ALLOC_FAILED, s1)
           | (True, s1) \<Rightarrow>
               (RESPONSE_SUCCESS,
                fold (\<lambda>pool. pool_list_update pool (\<lambda>l. l @ [new_pool_node a]))
                  [Pools_tcp, Pools_udp, Pools_icmp] s1)))"

text \<open>The loop of \<^verbatim>\<open>pool4_remove\<close> over the \<^verbatim>\<open>pool\<close> array, with its counter.\<close>

fun remove_nodes :: "in_addr \<Rightarrow> pool_ptr list \<Rightarrow> nat \<Rightarrow> pool4_state \<Rightarrow> nat \<times> pool4_state" where
  "remove_nodes a [] deleted s = (deleted, s)"
| "remove_nodes a (pool # pools) deleted s =
     (case get_pool_node (pool_list pool s) a of
        None \<Rightarrow> remove_nodes a pools deleted s
      | Some i \<Rightarrow> remove_nodes a pools (deleted + 1) (destroy_pool_node pool i s))"

definition pool4_remove :: "in_addr option \<Rightarrow> pool4_state \<Rightarrow> response_code \<times> pool4_state" where
  "pool4_remove address' s =
     (case address' of
        None \<Rightarrow> (RESPONSE_MISSING_PARAM, log_msg_add (Log_err ERR_NULL) s)
      | Some a \<Rightarrow>
          (case remove_nodes a [Pools_tcp, Pools_udp, Pools_icmp] 0 s of
             (deleted, s1) \<Rightarrow>
               if deleted \<noteq> 0 \<and> deleted \<noteq> pool_count
               then (RESPONSE_NOT_FOUND, log_msg_add (Log_crit ERR_POOL4_INCOMPLETE_INDEX) s1)
               else (RESPONSE_SUCCESS, s1)))"

text \<open>
  The loop of \<^verbatim>\<open>pool4_get_any\<close> over the nodes of a pool: the first node whose section for
  the port, in host byte order, yields a port. The result is the tuple written to
  \<^verbatim>\<open>*result\<close> and the list as it is left; \<open>None\<close> when the loop ends without a port.
\<close>

fun get_any_nodes :: "u16 \<Rightarrow> pool_node list \<Rightarrow> (ipv4_tuple_address \<times> pool_node list) option" where
  "get_any_nodes host_port [] = None"
| "get_any_nodes host_port (node # rest) =
     (let tuple_addr = \<lparr>tuple_address = address node, l4_id = host_port\<rparr>;
          section = get_section tuple_addr
      in case extract_any_port (section_of node section) of
           Some (p, section') \<Rightarrow>
             Some (\<lparr>tuple_address = address node, l4_id = p\<rparr>,
                   section_update section section' node # rest)
         | None \<Rightarrow>
             map_option (\<lambda>(r, rest'). (r, node # rest')) (get_any_nodes host_port rest))"

text \<open>
  \<^verbatim>\<open>pool4_get_any\<close>. The result is the returned flag, the contents of \<^verbatim>\<open>*result\<close> at
  return (\<open>result\<close> is what it held at the call) and the state.
\<close>

definition pool4_get_any ::
  "bool \<Rightarrow> u8 \<Rightarrow> u16 \<Rightarrow> ipv4_tuple_address \<Rightarrow> pool4_state \<Rightarrow> bool \<times> ipv4_tuple_address \<times> pool4_state" where
  "pool4_get_any big_endian l4protocol port result s =
     (case get_pool l4protocol s of
        (None, s1) \<Rightarrow> (False, result, s1)
      | (Some pool, s1) \<Rightarrow>
          if pool_list pool s1 = [] then (False, result, log_msg_add (Log_err ERR_POOL4_EMPTY) s1)
          else
            (case get_any_nodes (be16_to_cpu big_endian port) (pool_list pool s1) of
               Some (r, l) \<Rightarrow> (True, r, pool_list_update pool (\<lambda>_. l) s1)
             | None \<Rightarrow> (False, result, s1)))"

text \<open>
  \<^verbatim>\<open>pool4_get_similar\<close>. \<^verbatim>\<open>result->address\<close> is written before the extraction is tried, so
  it is written also when the function returns \<^verbatim>\<open>false\<close> for an exhausted section.
\<close>

definition pool4_get_similar ::
  "u8 \<Rightarrow> ipv4_tuple_address option \<Rightarrow> ipv4_tuple_address \<Rightarrow> pool4_state
     \<Rightarrow> bool \<times> ipv4_tuple_address \<times> pool4_state" where
  "pool4_get_similar l4protocol address' result s =
     (case address' of
        None \<Rightarrow> (False, result, log_msg_add (Log_err ERR_NULL) s)
      | Some a \<Rightarrow>
          (case get_pool l4protocol s of
             (None, s1) \<Rightarrow> (False, result, s1)
           | (Some pool, s1) \<Rightarrow>
               (case get_pool_node (pool_list pool s1) (tuple_address a) of
                  None \<Rightarrow> (False, result, log_msg_add (Log_err ERR_NOT_FOUND) s1)
                | Some i \<Rightarrow>
                    (let node = pool_list pool s1 ! i;
                         section = get_section a;
                         result1 = result\<lparr>tuple_address := tuple_address a\<rparr>
                     in case extract_any_port (section_of node section) of
                          Some (p, section') \<Rightarrow>
                            (True, result1\<lparr>l4_id := p\<rparr>,
                             pool_list_update pool
                               (\<lambda>l. l[i := section_update section section' node]) s1)
                        | None \<Rightarrow> (False, result1, s1)))))"

text \<open>
  \<^verbatim>\<open>pool4_return\<close>. \<open>kmalloc_ok\<close> tells whether the \<^verbatim>\<open>kmalloc\<close> of the
  \<^verbatim>\<open>struct free_port\<close> succeeds; \<^verbatim>\<open>list_add(new, head->prev)\<close> links it at the end.
\<close>

definition pool4_return ::
  "bool \<Rightarrow> u8 \<Rightarrow> ipv4_tuple_address option \<Rightarrow> pool4_state \<Rightarrow> bool \<times> pool4_state" where
  "pool4_return kmalloc_ok l4protocol address' s =
     (case address' of
        None \<Rightarrow> (False, log_msg_add (Log_err ERR_NULL) s)
      | Some a \<Rightarrow>
          (case get_pool l4protocol s of
             (None, s1) \<Rightarrow> (False, s1)
           | (Some pool, s1) \<Rightarrow>
               (case get_pool_node (pool_list pool s1) (tuple_address a) of
                  None \<Rightarrow> (False, log_msg_add (Log_err ERR_NOT_FOUND) s1)
                | Some i \<Rightarrow>
                    (let node = pool_list pool s1 ! i;
                         section = get_section a
                     in if \<not> kmalloc_ok then (False, log_msg_add (Log_err ERR_ALLOC_FAILED) s1)
                        else
                          (True,
                           pool_list_update pool
                             (\<lambda>l. l[i := section_update section
                                     ((section_of node section)
                                        \<lparr>free_ports := free_ports (section_of node section) @ [l4_id a]\<rparr>)
                                     node]) s1)))))"

text \<open>\<^verbatim>\<open>pool4_contains\<close>: the lookup is made in \<^verbatim>\<open>pools.udp\<close>.\<close>

definition pool4_contains :: "in_addr \<Rightarrow> pool4_state \<Rightarrow> bool" where
  "pool4_contains a s = (get_pool_node (udp s) a \<noteq> None)"

section \<open>src/mod/stateful/pool4/db.c\<close>

text \<open>
  \<^verbatim>\<open>struct pool4_table\<close> is declared by the table module
  (\<^verbatim>\<open>nat64/mod/stateful/pool4/table.h\<close>); the code of this file uses its \<^verbatim>\<open>mark\<close> and
  hands the rest to that module. The rest is the type parameter.
\<close>

record 'a pool4_table =
  mark :: u32
  samples :: 'a

text \<open>
  The globals of the file: the array of hash slots \<^verbatim>\<open>db\<close>, each slot a chain of tables
  from its first element on, \<^verbatim>\<open>power\<close> and \<^verbatim>\<open>values\<close> (written \<open>values'\<close>).
\<close>

record 'a pool4db_state =
  db :: "u32 \<Rightarrow> 'a pool4_table list"
  power :: nat
  values' :: nat

definition ESRCH :: "32 word" where
  "ESRCH = 3"

text \<open>
  \<^verbatim>\<open>find_table\<close>. The kernel's \<^verbatim>\<open>hash_32\<close> is a parameter. \<open>None\<close> is NULL.
\<close>

definition find_table ::
  "(u32 \<Rightarrow> nat \<Rightarrow> u32) \<Rightarrow> 'a pool4db_state \<Rightarrow> u32 \<Rightarrow> 'a pool4_table option" where
  "find_table hash_32 d mark' =
     (let hash = hash_32 mark' (power d)
      in find (\<lambda>table. mark table = mark') (db d hash))"

text \<open>
  \<^verbatim>\<open>pool4db_contains\<close>. \<^verbatim>\<open>pool4table_contains\<close>, of the table module, is a parameter.
  \<^verbatim>\<open>error\<close> is an \<^verbatim>\<open>int\<close>: it receives either the \<^verbatim>\<open>bool\<close> of the table module, as 0 or
  1, or \<^verbatim>\<open>-ESRCH\<close>; the function returns it as a \<^verbatim>\<open>bool\<close>, which is true for every value
  other than 0.
\<close>

definition pool4db_contains ::
  "('a pool4_table \<Rightarrow> ipv4_tuple_address \<Rightarrow> bool) \<Rightarrow> (u32 \<Rightarrow> nat \<Rightarrow> u32) \<Rightarrow> 'a pool4db_state
     \<Rightarrow> u32 \<Rightarrow> ipv4_tuple_address \<Rightarrow> bool" where
  "pool4db_contains pool4table_contains hash_32 d mark' addr =
     (let table = find_table hash_32 d mark';
          error = (case table of
                     Some t \<Rightarrow> (if pool4table_contains t addr then 1 else 0)
                   | None \<Rightarrow> - ESRCH) :: 32 word
      in error \<noteq> 0)"

section \<open>src/include/nf_nat64_filtering_and_updating.h\<close>

subsection \<open>Data\<close>

datatype expiry_type = UDP_DEFAULT | TCP_TRANS | TCP_EST | TCP_INCOMING_SYN | ICMP_DEFAULT

datatype state_type =
  CLOSED | V6_SYN_RCV | V4_SYN_RCV | FOUR_MIN | ESTABLISHED | V6_FIN_RCV | V4_FIN_RCV
  | V6_FIN_V4_FIN

type_synonym be16 = u16
type_synonym be32 = u32

text \<open>\<^verbatim>\<open>struct in6_addr\<close>: the four words \<^verbatim>\<open>s6_addr32[0]\<close> to \<^verbatim>\<open>s6_addr32[3]\<close>.\<close>

type_synonym in6_addr = "u32 \<times> u32 \<times> u32 \<times> u32"

text \<open>
  Sessions and BIB entries are blocks of the kmem caches, named by their addresses
  (natural numbers). A linked list is the list of the addresses of the entries on it, from
  the first element on.

  \<^verbatim>\<open>struct expiry_q\<close>: the sessions linked by \<^verbatim>\<open>byexpiry\<close>, and the timeout, an \<^verbatim>\<open>int\<close>.
\<close>

record expiry_q =
  queue :: "nat list"
  timeout :: "32 word"

text \<open>\<^verbatim>\<open>struct nat64_bib_entry\<close>; \<open>sessions\<close> are the sessions linked by their \<^verbatim>\<open>list\<close>.\<close>

record nat64_bib_entry =
  type :: "32 word"
  remote6_addr :: in6_addr
  local4_addr :: be32
  remote6_port :: be16
  local4_port :: be16
  sessions :: "nat list"

text \<open>
  \<^verbatim>\<open>struct nat64_st_entry\<close>. The four fields that have the names of fields of the BIB
  entry carry the prefix \<open>st_\<close>. The struct has no pointer to its BIB: the code reaches the
  BIB through \<^verbatim>\<open>list.next\<close>. \<open>list_bib\<close> stands for the links of the node \<^verbatim>\<open>list\<close>: it
  is the BIB entry on whose \<^verbatim>\<open>sessions\<close> list the node is linked.
\<close>

record nat64_st_entry =
  list_bib :: nat
  st_remote6_addr :: in6_addr
  embedded6_addr :: in6_addr
  expires :: ulong
  state :: state_type
  st_local4_addr :: be32
  remote4_addr :: be32
  st_remote6_port :: be16
  embedded6_port :: be16
  remote4_port :: be16
  st_local4_port :: be16

text \<open>
  \<^verbatim>\<open>struct transport_addr_struct\<close> is declared in \<^verbatim>\<open>nf_nat64_ipv4_pool.h\<close>: the code of
  this file reads its \<^verbatim>\<open>address\<close>, a string, and its \<^verbatim>\<open>port\<close>.
\<close>

record transport_addr_struct =
  ta_address :: string
  ta_port :: u16

text \<open>The three flags of \<^verbatim>\<open>struct tcphdr\<close> that the state machine reads.\<close>

record tcphdr =
  syn :: bool
  fin :: bool
  rst :: bool

text \<open>
  The globals the file works on. \<open>st_mem\<close> and \<open>bib_mem\<close> give the contents of the block
  at an address, \<open>st_live\<close> and \<open>bib_live\<close> the blocks that are allocated: a block that
  was freed keeps its last contents and leaves the set. The caches for TCP hold blocks of
  the same two structs and differ only in where the memory comes from, so one pair of
  sets stands for both. \<open>hash6\<close> and \<open>hash4\<close> give the chain of each bucket.
  \<open>pool4\<close> is the state of \<^verbatim>\<open>pool4.c\<close> above, which no function of this file touches.
\<close>

record nat64_state =
  jiffies :: ulong
  expiry_base :: "expiry_type \<Rightarrow> expiry_q"
  st_mem :: "nat \<Rightarrow> nat64_st_entry"
  st_live :: "nat set"
  bib_mem :: "nat \<Rightarrow> nat64_bib_entry"
  bib_live :: "nat set"
  hash6 :: "u16 \<Rightarrow> nat list"
  hash4 :: "u16 \<Rightarrow> nat list"
  free_udp_transport_addr :: "transport_addr_struct list"
  pool4 :: pool4_state

subsection \<open>Kernel primitives\<close>

text \<open>
  \<^verbatim>\<open>time_after(a, b)\<close> of \<^verbatim>\<open>linux/jiffies.h\<close>: \<^verbatim>\<open>(long)(b - a) < 0\<close>, with \<^verbatim>\<open>unsigned long\<close>
  of 64 bits.
\<close>

definition time_after :: "ulong \<Rightarrow> ulong \<Rightarrow> bool" where
  "time_after a b = (sint (b - a) < 0)"

text \<open>\<^verbatim>\<open>list_del\<close> of a session's \<^verbatim>\<open>byexpiry\<close>: the node leaves the queue it is on.\<close>

definition list_del_byexpiry :: "nat \<Rightarrow> nat64_state \<Rightarrow> nat64_state" where
  "list_del_byexpiry session w =
     w\<lparr>expiry_base := \<lambda>t. (expiry_base w t)\<lparr>queue := removeAll session (queue (expiry_base w t))\<rparr>\<rparr>"

text \<open>\<^verbatim>\<open>list_add_tail\<close> of a session's \<^verbatim>\<open>byexpiry\<close> to the queue of \<^verbatim>\<open>expiry_base[type]\<close>.\<close>

definition list_add_tail_byexpiry :: "nat \<Rightarrow> expiry_type \<Rightarrow> nat64_state \<Rightarrow> nat64_state" where
  "list_add_tail_byexpiry session type' w =
     w\<lparr>expiry_base := (expiry_base w)
         (type' := (expiry_base w type')\<lparr>queue := queue (expiry_base w type') @ [session]\<rparr>)\<rparr>"

text \<open>\<^verbatim>\<open>list_del\<close> of a session's \<^verbatim>\<open>list\<close>: the node leaves the list of its BIB.\<close>

definition list_del_list :: "nat \<Rightarrow> nat64_state \<Rightarrow> nat64_state" where
  "list_del_list session w =
     (let bib = list_bib (st_mem w session)
      in w\<lparr>bib_mem := (bib_mem w)
             (bib := (bib_mem w bib)\<lparr>sessions := removeAll session (sessions (bib_mem w bib))\<rparr>)\<rparr>)"

text \<open>\<^verbatim>\<open>hlist_del\<close> of a BIB's \<^verbatim>\<open>byremote\<close> and of its \<^verbatim>\<open>bylocal\<close>: the node leaves its chain.\<close>

definition hlist_del_byremote :: "nat \<Rightarrow> nat64_state \<Rightarrow> nat64_state" where
  "hlist_del_byremote bib w = w\<lparr>hash6 := \<lambda>h. removeAll bib (hash6 w h)\<rparr>"

definition hlist_del_bylocal :: "nat \<Rightarrow> nat64_state \<Rightarrow> nat64_state" where
  "hlist_del_bylocal bib w = w\<lparr>hash4 := \<lambda>h. removeAll bib (hash4 w h)\<rparr>"

definition set_state :: "nat \<Rightarrow> state_type \<Rightarrow> nat64_state \<Rightarrow> nat64_state" where
  "set_state session st w = w\<lparr>st_mem := (st_mem w)(session := (st_mem w session)\<lparr>state := st\<rparr>)\<rparr>"

subsection \<open>Functions\<close>

definition nat64_hash4 :: "be32 \<Rightarrow> be16 \<Rightarrow> be16" where
  "nat64_hash4 addr port = port"

text \<open>
  \<^verbatim>\<open>nat64_hash6\<close>: the port is promoted to 32 bits for the exclusive or, and the result is
  cut to the 16 bits of the return type.
\<close>

definition nat64_hash6 :: "in6_addr \<Rightarrow> be16 \<Rightarrow> be16" where
  "nat64_hash6 addr6 port =
     (case addr6 of (a0, a1, a2, a3) \<Rightarrow>
        (let addr4 = a1 XOR a2 XOR a3
         in ucast (drop_bit 16 addr4 XOR addr4 XOR ucast port)))"

text \<open>
  \<^verbatim>\<open>session_renew\<close>. \<open>hz\<close> is the kernel's \<^verbatim>\<open>HZ\<close>. The product is one of two \<^verbatim>\<open>int\<close>s and
  is converted to \<^verbatim>\<open>unsigned long\<close> for the sum.
\<close>

definition session_renew :: "32 word \<Rightarrow> nat \<Rightarrow> expiry_type \<Rightarrow> nat64_state \<Rightarrow> nat64_state" where
  "session_renew hz session type' w =
     (let w1 = list_del_byexpiry session w;
          w2 = w1\<lparr>st_mem := (st_mem w1)
                 (session := (st_mem w1 session)
                    \<lparr>expires := jiffies w1 + scast (timeout (expiry_base w1 type') * hz)\<rparr>)\<rparr>
      in list_add_tail_byexpiry session type' w2)"

definition tcp_timeout_fsm :: "32 word \<Rightarrow> nat \<Rightarrow> nat64_state \<Rightarrow> int \<times> nat64_state" where
  "tcp_timeout_fsm hz session w =
     (if state (st_mem w session) = ESTABLISHED
      then (1, set_state session FOUR_MIN (session_renew hz session TCP_TRANS w))
      else (0, w))"

definition tcp4_fsm :: "32 word \<Rightarrow> nat \<Rightarrow> tcphdr \<Rightarrow> nat64_state \<Rightarrow> nat64_state" where
  "tcp4_fsm hz session tcph w =
     (case state (st_mem w session) of
        CLOSED \<Rightarrow> w
      | V6_SYN_RCV \<Rightarrow>
          if syn tcph then set_state session ESTABLISHED (session_renew hz session TCP_EST w)
          else w
      | V4_SYN_RCV \<Rightarrow> w
      | FOUR_MIN \<Rightarrow>
          if \<not> rst tcph then set_state session ESTABLISHED (session_renew hz session TCP_EST w)
          else w
      | ESTABLISHED \<Rightarrow>
          if fin tcph then set_state session V4_FIN_RCV w
          else if rst tcph then set_state session FOUR_MIN (session_renew hz session TCP_TRANS w)
          else session_renew hz session TCP_EST w
      | V6_FIN_RCV \<Rightarrow>
          if fin tcph then set_state session V6_FIN_V4_FIN (session_renew hz session TCP_TRANS w)
          else session_renew hz session TCP_EST w
      | V4_FIN_RCV \<Rightarrow> session_renew hz session TCP_EST w
      | V6_FIN_V4_FIN \<Rightarrow> w)"

definition tcp6_fsm :: "32 word \<Rightarrow> nat \<Rightarrow> tcphdr \<Rightarrow> nat64_state \<Rightarrow> nat64_state" where
  "tcp6_fsm hz session tcph w =
     (case state (st_mem w session) of
        CLOSED \<Rightarrow>
          if syn tcph then set_state session V6_SYN_RCV (session_renew hz session TCP_TRANS w)
          else w
      | V6_SYN_RCV \<Rightarrow> if syn tcph then session_renew hz session TCP_TRANS w else w
      | V4_SYN_RCV \<Rightarrow>
          if syn tcph then set_state session ESTABLISHED (session_renew hz session TCP_EST w)
          else w
      | FOUR_MIN \<Rightarrow>
          if \<not> rst tcph then set_state session ESTABLISHED (session_renew hz session TCP_EST w)
          else w
      | ESTABLISHED \<Rightarrow>
          if fin tcph then set_state session V6_FIN_RCV w
          else if rst tcph then set_state session FOUR_MIN (session_renew hz session TCP_TRANS w)
          else session_renew hz session TCP_EST w
      | V6_FIN_RCV \<Rightarrow> session_renew hz session TCP_EST w
      | V4_FIN_RCV \<Rightarrow>
          if fin tcph then set_state session V6_FIN_V4_FIN (session_renew hz session TCP_TRANS w)
          else session_renew hz session TCP_EST w
      | V6_FIN_V4_FIN \<Rightarrow> w)"

text \<open>
  The body of the loop of \<^verbatim>\<open>clean_expired_sessions\<close> for an expired session that gets no
  grace, from \<^verbatim>\<open>list_del(pos)\<close> to the \<^verbatim>\<open>kmem_cache_free\<close> of the session.
  \<^verbatim>\<open>next_session\<close> is the node after the session on the list of its BIB, read before the
  session leaves that list. If it is another session it is still linked to the list head
  and \<^verbatim>\<open>list_empty\<close> is false; if it is the head of the list, \<^verbatim>\<open>list_empty\<close> tells whether
  the list is empty now. So the test holds exactly when the list of the BIB is empty after
  the removal, and then \<^verbatim>\<open>list_entry\<close> gives that BIB.
\<close>

definition reap_session :: "nat \<Rightarrow> nat64_state \<Rightarrow> nat64_state" where
  "reap_session session w =
     (let w1 = list_del_byexpiry session w;
          bib = list_bib (st_mem w1 session);
          w2 = list_del_list session w1;
          w3 = (if sessions (bib_mem w2 bib) = []
                then (hlist_del_bylocal bib (hlist_del_byremote bib w2))
                       \<lparr>bib_live := bib_live w2 - {bib}\<rparr>
                else w2)
      in w3\<lparr>st_live := st_live w3 - {session}\<rparr>)"

text \<open>
  The loop of \<^verbatim>\<open>clean_expired_sessions\<close> over the queue \<^verbatim>\<open>expiry_base[q].queue\<close>, from the
  position \<^verbatim>\<open>pos\<close> on: the list is \<^verbatim>\<open>pos\<close> and the nodes after it. \<^verbatim>\<open>list_for_each_safe\<close>
  reads \<^verbatim>\<open>n = pos->next\<close> before the body runs. A session that \<^verbatim>\<open>tcp_timeout_fsm\<close> renews
  goes to the tail of the queue of \<^verbatim>\<open>TCP_TRANS\<close>: when that is the queue being walked and
  \<^verbatim>\<open>n\<close> is a session, the walk will reach the renewed session again after the others; when
  \<^verbatim>\<open>n\<close> is the head of the queue, the loop ends.
\<close>

function clean_from :: "32 word \<Rightarrow> expiry_type \<Rightarrow> nat list \<Rightarrow> nat64_state \<Rightarrow> nat64_state" where
  "clean_from hz q [] w = w"
| "clean_from hz q (session # rest) w =
     (if time_after (jiffies w) (expires (st_mem w session)) then
        (let (grace, w1) = tcp_timeout_fsm hz session w
         in if grace \<noteq> 0
            then clean_from hz q (if q = TCP_TRANS \<and> rest \<noteq> [] then rest @ [session] else rest) w1
            else clean_from hz q rest (reap_session session w1))
      else w)"
  by pat_completeness auto
termination
proof (relation "measure (\<lambda>(hz, q, l, w).
         length l + length (filter (\<lambda>s. state (st_mem w s) = ESTABLISHED) l))", goal_cases)
  case 1
  show ?case by simp
next
  case (2 hz q session rest w x grace w1)
  then have est: "state (st_mem w session) = ESTABLISHED"
    and w1: "w1 = set_state session FOUR_MIN (session_renew hz session TCP_TRANS w)"
    by (auto simp: tcp_timeout_fsm_def split: if_splits)
  have st: "state (st_mem w1 s) = ESTABLISHED \<Longrightarrow> state (st_mem w s) = ESTABLISHED" for s
    by (auto simp: w1 set_state_def session_renew_def list_del_byexpiry_def
        list_add_tail_byexpiry_def Let_def split: if_splits)
  have no: "state (st_mem w1 session) \<noteq> ESTABLISHED"
    by (simp add: w1 set_state_def)
  have "length (filter (\<lambda>s. state (st_mem w1 s) = ESTABLISHED) rest)
      \<le> length (filter (\<lambda>s. state (st_mem w s) = ESTABLISHED) rest)"
    by (induction rest) (auto dest: st)
  with est no show ?case by simp
next
  case (3 hz q session rest w x grace w1)
  then have w1: "w1 = w"
    by (auto simp: tcp_timeout_fsm_def split: if_splits)
  have "st_mem (reap_session session w1) = st_mem w"
    by (simp add: w1 reap_session_def list_del_byexpiry_def list_del_list_def
        hlist_del_bylocal_def hlist_del_byremote_def Let_def)
  then show ?case by simp
qed

declare clean_from.simps [simp del]

definition clean_expired_sessions :: "32 word \<Rightarrow> expiry_type \<Rightarrow> nat64_state \<Rightarrow> nat64_state" where
  "clean_expired_sessions hz q w = clean_from hz q (queue (expiry_base w q)) w"

text \<open>
  \<^verbatim>\<open>clean_expired_sessions_tcp\<close> is the same text with the caches for TCP in the two
  \<^verbatim>\<open>kmem_cache_free\<close>.
\<close>

definition clean_expired_sessions_tcp :: "32 word \<Rightarrow> expiry_type \<Rightarrow> nat64_state \<Rightarrow> nat64_state" where
  "clean_expired_sessions_tcp hz q w = clean_from hz q (queue (expiry_base w q)) w"

text \<open>
  \<^verbatim>\<open>session_create\<close>. \<open>zalloc\<close> is what \<^verbatim>\<open>kmem_cache_zalloc\<close> returns: the address of a
  block, or \<open>None\<close> for NULL. \<^verbatim>\<open>list_add\<close> links the session first on the list of the BIB.
\<close>

definition session_create ::
  "32 word \<Rightarrow> nat option \<Rightarrow> nat \<Rightarrow> in6_addr \<Rightarrow> be32 \<Rightarrow> be16 \<Rightarrow> expiry_type \<Rightarrow> nat64_state
     \<Rightarrow> nat option \<times> nat64_state" where
  "session_create hz zalloc bib in6_daddr addr port type' w =
     (case zalloc of
        None \<Rightarrow> (None, w)
      | Some s \<Rightarrow>
          (let b = bib_mem w bib;
               entry = \<lparr>list_bib = bib,
                        st_remote6_addr = remote6_addr b,
                        embedded6_addr = in6_daddr,
                        expires = jiffies w + scast (timeout (expiry_base w type') * hz),
                        state = CLOSED,
                        st_local4_addr = local4_addr b,
                        remote4_addr = addr,
                        st_remote6_port = remote6_port b,
                        embedded6_port = port,
                        remote4_port = port,
                        st_local4_port = local4_port b\<rparr>;
               w1 = w\<lparr>st_live := insert s (st_live w), st_mem := (st_mem w)(s := entry)\<rparr>;
               w2 = w1\<lparr>bib_mem := (bib_mem w1)
                      (bib := (bib_mem w1 bib)\<lparr>sessions := s # sessions (bib_mem w1 bib)\<rparr>)\<rparr>
           in (Some s, list_add_tail_byexpiry s type' w2)))"

text \<open>\<^verbatim>\<open>session_create_tcp\<close>: the same text with the session cache for TCP.\<close>

definition session_create_tcp ::
  "32 word \<Rightarrow> nat option \<Rightarrow> nat \<Rightarrow> in6_addr \<Rightarrow> be32 \<Rightarrow> be16 \<Rightarrow> expiry_type \<Rightarrow> nat64_state
     \<Rightarrow> nat option \<times> nat64_state" where
  "session_create_tcp hz zalloc bib in6_daddr addr port type' w =
     session_create hz zalloc bib in6_daddr addr port type' w"

text \<open>\<^verbatim>\<open>bib_ipv4_lookup\<close> and \<^verbatim>\<open>bib_ipv6_lookup\<close>: the first entry of the chain that matches.\<close>

definition bib_ipv4_lookup :: "be32 \<Rightarrow> be16 \<Rightarrow> 32 word \<Rightarrow> nat64_state \<Rightarrow> nat option" where
  "bib_ipv4_lookup local_addr local_port type' w =
     find (\<lambda>bib. type (bib_mem w bib) = type' \<and> local4_addr (bib_mem w bib) = local_addr
                 \<and> local4_port (bib_mem w bib) = local_port)
       (hash4 w (nat64_hash4 local_addr local_port))"

definition bib_ipv6_lookup :: "in6_addr \<Rightarrow> be16 \<Rightarrow> 32 word \<Rightarrow> nat64_state \<Rightarrow> nat option" where
  "bib_ipv6_lookup remote_addr remote_port type' w =
     find (\<lambda>bib. type (bib_mem w bib) = type' \<and> remote6_port (bib_mem w bib) = remote_port
                 \<and> remote6_addr (bib_mem w bib) = remote_addr)
       (hash6 w (nat64_hash6 remote_addr remote_port))"

text \<open>\<^verbatim>\<open>bib_create\<close>, with \<open>zalloc\<close> as in \<^verbatim>\<open>session_create\<close>.\<close>

definition bib_create ::
  "nat option \<Rightarrow> in6_addr \<Rightarrow> be16 \<Rightarrow> be32 \<Rightarrow> be16 \<Rightarrow> 32 word \<Rightarrow> nat64_state
     \<Rightarrow> nat option \<times> nat64_state" where
  "bib_create zalloc remote6_addr' remote6_port' local4_addr' local4_port' type' w =
     (case zalloc of
        None \<Rightarrow> (None, w)
      | Some bib \<Rightarrow>
          (Some bib,
           w\<lparr>bib_live := insert bib (bib_live w),
             bib_mem := (bib_mem w)
               (bib := \<lparr>type = type', remote6_addr = remote6_addr', local4_addr = local4_addr',
                        remote6_port = remote6_port', local4_port = local4_port',
                        sessions = []\<rparr>)\<rparr>))"

definition bib_create_tcp ::
  "nat option \<Rightarrow> in6_addr \<Rightarrow> be16 \<Rightarrow> be32 \<Rightarrow> be16 \<Rightarrow> 32 word \<Rightarrow> nat64_state
     \<Rightarrow> nat option \<times> nat64_state" where
  "bib_create_tcp zalloc remote6_addr' remote6_port' local4_addr' local4_port' type' w =
     bib_create zalloc remote6_addr' remote6_port' local4_addr' local4_port' type' w"

text \<open>\<^verbatim>\<open>hlist_add_head\<close> of a BIB's \<^verbatim>\<open>byremote\<close> and of its \<^verbatim>\<open>bylocal\<close> to a bucket.\<close>

definition hlist_add_head_byremote :: "nat \<Rightarrow> u16 \<Rightarrow> nat64_state \<Rightarrow> nat64_state" where
  "hlist_add_head_byremote bib h w = w\<lparr>hash6 := (hash6 w)(h := bib # hash6 w h)\<rparr>"

definition hlist_add_head_bylocal :: "nat \<Rightarrow> u16 \<Rightarrow> nat64_state \<Rightarrow> nat64_state" where
  "hlist_add_head_bylocal bib h w = w\<lparr>hash4 := (hash4 w)(h := bib # hash4 w h)\<rparr>"

text \<open>
  \<^verbatim>\<open>bib_session_create\<close>. Parameters stand for what lies outside this file:
  \<open>get_tranport_addr\<close>, of \<^verbatim>\<open>nf_nat64_ipv4_pool.h\<close>, gives the transport address it
  hands out (\<open>None\<close> for NULL) and the free list as it leaves it; \<open>in4_pton\<close> gives the
  address that the kernel's parser writes for a string; \<open>big_endian\<close> is the byte order of
  the host, for \<^verbatim>\<open>ntohs\<close>; \<open>bib_zalloc\<close> and \<open>st_zalloc\<close> are the results of the two
  allocations.

  \<^verbatim>\<open>local4_port\<close> is a \<^verbatim>\<open>__be16\<close>, an unsigned type: the -1 stored for an empty pool is
  65535, and the test \<^verbatim>\<open>local4_port < 0\<close> is made on the promoted, unsigned value.

  When the session cannot be allocated the BIB block is freed and NULL returned; the code
  has no \<^verbatim>\<open>hlist_del\<close> on this path.
\<close>

definition bib_session_create ::
  "(transport_addr_struct list \<Rightarrow> transport_addr_struct option \<times> transport_addr_struct list)
     \<Rightarrow> (string \<Rightarrow> be32) \<Rightarrow> bool \<Rightarrow> 32 word \<Rightarrow> nat option \<Rightarrow> nat option
     \<Rightarrow> in6_addr \<Rightarrow> in6_addr \<Rightarrow> be32 \<Rightarrow> be16 \<Rightarrow> be16 \<Rightarrow> 32 word \<Rightarrow> expiry_type
     \<Rightarrow> nat64_state \<Rightarrow> nat option \<times> nat64_state" where
  "bib_session_create get_tranport_addr in4_pton big_endian hz bib_zalloc st_zalloc
       saddr in6_daddr daddr sport dport protocol type' w =
     (let (transport_addr, free') = get_tranport_addr (free_udp_transport_addr w);
          w1 = w\<lparr>free_udp_transport_addr := free'\<rparr>;
          (local4_port', local4_addr') =
             (case transport_addr of
                None \<Rightarrow> (- 1, - 1)
              | Some ta \<Rightarrow> (be16_to_cpu big_endian (ta_port ta), in4_pton (ta_address ta)))
      in if uint local4_port' < 0 then (None, w1)
         else
           (case bib_create bib_zalloc saddr sport local4_addr' local4_port' protocol w1 of
              (None, w2) \<Rightarrow> (None, w2)
            | (Some bib, w2) \<Rightarrow>
                (let w3 = hlist_add_head_byremote bib (nat64_hash6 saddr sport) w2;
                     w4 = hlist_add_head_bylocal bib local4_port' w3
                 in case session_create hz st_zalloc bib in6_daddr daddr dport type' w4 of
                      (None, w5) \<Rightarrow> (None, w5\<lparr>bib_live := bib_live w5 - {bib}\<rparr>)
                    | (Some session, w5) \<Rightarrow> (Some bib, w5))))"

text \<open>\<^verbatim>\<open>bib_session_create_tcp\<close>: the same text with the functions and the cache for TCP.\<close>

definition bib_session_create_tcp ::
  "(transport_addr_struct list \<Rightarrow> transport_addr_struct option \<times> transport_addr_struct list)
     \<Rightarrow> (string \<Rightarrow> be32) \<Rightarrow> bool \<Rightarrow> 32 word \<Rightarrow> nat option \<Rightarrow> nat option
     \<Rightarrow> in6_addr \<Rightarrow> in6_addr \<Rightarrow> be32 \<Rightarrow> be16 \<Rightarrow> be16 \<Rightarrow> 32 word \<Rightarrow> expiry_type
     \<Rightarrow> nat64_state \<Rightarrow> nat option \<times> nat64_state" where
  "bib_session_create_tcp get_tranport_addr in4_pton big_endian hz bib_zalloc st_zalloc
       saddr in6_daddr daddr sport dport protocol type' w =
     (let (transport_addr, free') = get_tranport_addr (free_udp_transport_addr w);
          w1 = w\<lparr>free_udp_transport_addr := free'\<rparr>;
          (local4_port', local4_addr') =
             (case transport_addr of
                None \<Rightarrow> (- 1, - 1)
              | Some ta \<Rightarrow> (be16_to_cpu big_endian (ta_port ta), in4_pton (ta_address ta)))
      in if uint local4_port' < 0 then (None, w1)
         else
           (case bib_create_tcp bib_zalloc saddr sport local4_addr' local4_port' protocol w1 of
              (None, w2) \<Rightarrow> (None, w2)
            | (Some bib, w2) \<Rightarrow>
                (let w3 = hlist_add_head_byremote bib (nat64_hash6 saddr sport) w2;
                     w4 = hlist_add_head_bylocal bib local4_port' w3
                 in case session_create_tcp hz st_zalloc bib in6_daddr daddr dport type' w4 of
                      (None, w5) \<Rightarrow> (None, w5\<lparr>bib_live := bib_live w5 - {bib}\<rparr>)
                    | (Some session, w5) \<Rightarrow> (Some bib, w5))))"

section \<open>Definitions for the statements\<close>

subsection \<open>The pools\<close>

text \<open>The list without the first node that has the address \<open>a\<close>.\<close>

fun remove_addr :: "in_addr \<Rightarrow> pool_node list \<Rightarrow> pool_node list" where
  "remove_addr a [] = []"
| "remove_addr a (node # rest) = (if address node = a then rest else node # remove_addr a rest)"

text \<open>The list has a node of the address \<open>a\<close>.\<close>

definition holds_addr :: "in_addr \<Rightarrow> pool_node list \<Rightarrow> bool" where
  "holds_addr a l = (a \<in> address ` set l)"

text \<open>The number of pools, of the three, that hold the address.\<close>

definition found_in :: "in_addr \<Rightarrow> pool4_state \<Rightarrow> nat" where
  "found_in a s = length (filter (holds_addr a) [tcp s, udp s, icmp s])"

text \<open>
  The ports of a section: \<open>in_section sp p\<close> says that the port number \<open>p\<close> has the
  parity and the range of the section \<open>sp\<close>.
\<close>

definition in_section :: "section_ptr \<Rightarrow> nat \<Rightarrow> bool" where
  "in_section sp p =
     ((p < 1024) = (sp = Odd_low \<or> sp = Even_low) \<and> even p = (sp = Even_low \<or> sp = Even_high))"

text \<open>
  The invariant of the pools. In a section every free port has the parity and the range
  of the section, the upper bound is within the range, and the next port, as long as it
  is not beyond the upper bound, has the parity and the range of the section.
\<close>

definition section_inv :: "section_ptr \<Rightarrow> addr_section \<Rightarrow> bool" where
  "section_inv sp sec =
     ((\<forall>p \<in> set (free_ports sec). in_section sp (unat p))
      \<and> unat (max_port sec) \<le> (if sp = Odd_low \<or> sp = Even_low then 1023 else 65535)
      \<and> (next_port sec \<le> max_port sec \<longrightarrow> in_section sp (unat (next_port sec))))"

definition node_inv :: "pool_node \<Rightarrow> bool" where
  "node_inv n = (\<forall>sp. section_inv sp (section_of n sp))"

definition pool4_inv :: "pool4_state \<Rightarrow> bool" where
  "pool4_inv s = (\<forall>pool. \<forall>n \<in> set (pool_list pool s). node_inv n)"

text \<open>
  The states of the pools that the functions of the module lead to, from the empty pools of
  \<^verbatim>\<open>pool4_init\<close>, with any arguments and any outcomes of the allocations.
\<close>

inductive pool4_reachable :: "pool4_state \<Rightarrow> bool" where
  init: "pool4_reachable pool4_init"
| register: "pool4_reachable s \<Longrightarrow> pool4_reachable (snd (pool4_register kmalloc_ok a s))"
| remove: "pool4_reachable s \<Longrightarrow> pool4_reachable (snd (pool4_remove a s))"
| get_any:
    "pool4_reachable s \<Longrightarrow> pool4_reachable (snd (snd (pool4_get_any big_endian l4protocol port result s)))"
| get_similar:
    "pool4_reachable s \<Longrightarrow> pool4_reachable (snd (snd (pool4_get_similar l4protocol ta result s)))"
| return: "pool4_reachable s \<Longrightarrow> pool4_reachable (snd (pool4_return kmalloc_ok l4protocol ta s))"
| destroy: "pool4_reachable s \<Longrightarrow> pool4_reachable (pool4_destroy s)"

text \<open>The values of \<^verbatim>\<open>next_port\<close> of all sections of all nodes, pool by pool.\<close>

definition node_next_ports :: "pool_node \<Rightarrow> u32 list" where
  "node_next_ports n = map (\<lambda>sp. next_port (section_of n sp)) [Odd_low, Even_low, Odd_high, Even_high]"

definition next_ports :: "pool4_state \<Rightarrow> u32 list list list" where
  "next_ports s = map (\<lambda>pool. map node_next_ports (pool_list pool s)) [Pools_udp, Pools_tcp, Pools_icmp]"

subsection \<open>The transition table of the specification\<close>

text \<open>
  Section 4.2 of the specification gives, for each state and each side a packet arrives
  from, the next state and the expiry queue the session is renewed on. \<open>spec_transition\<close>
  is that table, row by row: the second component is \<open>None\<close> where the row names no
  queue, the state stays where the row names no next state, and of several conditions in
  a cell the first that holds applies.
\<close>

datatype direction = V6_packet | V4_packet

fun spec_transition :: "direction \<Rightarrow> state_type \<Rightarrow> tcphdr \<Rightarrow> state_type \<times> expiry_type option" where
  "spec_transition V6_packet CLOSED h =
     (if syn h then (V6_SYN_RCV, Some TCP_TRANS) else (CLOSED, None))"
| "spec_transition V4_packet CLOSED h = (CLOSED, None)"
| "spec_transition V6_packet V6_SYN_RCV h =
     (if syn h then (V6_SYN_RCV, Some TCP_TRANS) else (V6_SYN_RCV, None))"
| "spec_transition V4_packet V6_SYN_RCV h =
     (if syn h then (ESTABLISHED, Some TCP_EST) else (V6_SYN_RCV, None))"
| "spec_transition V6_packet V4_SYN_RCV h =
     (if syn h then (ESTABLISHED, Some TCP_EST) else (V4_SYN_RCV, None))"
| "spec_transition V4_packet V4_SYN_RCV h = (V4_SYN_RCV, None)"
| "spec_transition d FOUR_MIN h =
     (if \<not> rst h then (ESTABLISHED, Some TCP_EST) else (FOUR_MIN, None))"
| "spec_transition V6_packet ESTABLISHED h =
     (if fin h then (V6_FIN_RCV, None)
      else if rst h then (FOUR_MIN, Some TCP_TRANS)
      else (ESTABLISHED, Some TCP_EST))"
| "spec_transition V4_packet ESTABLISHED h =
     (if fin h then (V4_FIN_RCV, None)
      else if rst h then (FOUR_MIN, Some TCP_TRANS)
      else (ESTABLISHED, Some TCP_EST))"
| "spec_transition V6_packet V6_FIN_RCV h = (V6_FIN_RCV, Some TCP_EST)"
| "spec_transition V4_packet V6_FIN_RCV h =
     (if fin h then (V6_FIN_V4_FIN, Some TCP_TRANS) else (V6_FIN_RCV, Some TCP_EST))"
| "spec_transition V6_packet V4_FIN_RCV h =
     (if fin h then (V6_FIN_V4_FIN, Some TCP_TRANS) else (V4_FIN_RCV, Some TCP_EST))"
| "spec_transition V4_packet V4_FIN_RCV h = (V4_FIN_RCV, Some TCP_EST)"
| "spec_transition d V6_FIN_V4_FIN h = (V6_FIN_V4_FIN, None)"

text \<open>
  The renew of the specification (sections 4.2 and 4.4): the session is removed from its
  current queue position and appended to the tail of the named queue, and its deadline is
  reset to the current time plus the timeout of that queue. The timeout is in seconds and
  the clock in ticks, \<open>hz\<close> to the second. Nothing else changes. The definition is
  written from these words and uses no function of the code.
\<close>

definition spec_renew :: "32 word \<Rightarrow> nat \<Rightarrow> expiry_type \<Rightarrow> nat64_state \<Rightarrow> nat64_state" where
  "spec_renew hz session k w =
     w\<lparr>expiry_base := \<lambda>t. (expiry_base w t)
           \<lparr>queue := (if t = k then removeAll session (queue (expiry_base w t)) @ [session]
                       else removeAll session (queue (expiry_base w t)))\<rparr>,
       st_mem := (st_mem w)
           (session := (st_mem w session)
              \<lparr>expires := jiffies w + scast (timeout (expiry_base w k) * hz)\<rparr>)\<rparr>"

text \<open>
  What a row asks for: the session is renewed, in the sense of \<open>spec_renew\<close>, on the
  queue of the row, if the row names one, and has the state of the row.
\<close>

definition spec_apply ::
  "32 word \<Rightarrow> nat \<Rightarrow> state_type \<times> expiry_type option \<Rightarrow> nat64_state \<Rightarrow> nat64_state" where
  "spec_apply hz session row w =
     (let w1 = (case snd row of None \<Rightarrow> w | Some k \<Rightarrow> spec_renew hz session k w)
      in w1\<lparr>st_mem := (st_mem w1)(session := (st_mem w1 session)\<lparr>state := fst row\<rparr>)\<rparr>)"

text \<open>The function of the code for the side a packet arrives from.\<close>

abbreviation tcp_fsm :: "direction \<Rightarrow> 32 word \<Rightarrow> nat \<Rightarrow> tcphdr \<Rightarrow> nat64_state \<Rightarrow> nat64_state" where
  "tcp_fsm d hz session h w \<equiv>
     (case d of V6_packet \<Rightarrow> tcp6_fsm hz session h w | V4_packet \<Rightarrow> tcp4_fsm hz session h w)"

subsection \<open>BIB entries\<close>

text \<open>A BIB entry that is freed and on no chain of the two hash tables.\<close>

definition bib_detached :: "nat \<Rightarrow> nat64_state \<Rightarrow> bool" where
  "bib_detached bib w =
     (bib \<notin> bib_live w \<and> (\<forall>h. bib \<notin> set (hash6 w h)) \<and> (\<forall>h. bib \<notin> set (hash4 w h)))"

subsection \<open>Example states\<close>

text \<open>
  The pool after the address 198.51.100.1 was registered and the first even port above
  1023, which is 1024, was taken from the UDP pool.
\<close>

definition ex_pool4 :: pool4_state where
  "ex_pool4 =
     (let node = (new_pool_node 0xC6336401)\<lparr>even_high := \<lparr>next_port = 1026, max_port = 65534, free_ports = []\<rparr>\<rparr>
      in \<lparr>udp = [node], tcp = [new_pool_node 0xC6336401], icmp = [new_pool_node 0xC6336401],
          node_blocks = 3, klog = []\<rparr>)"

text \<open>
  One BIB entry for UDP, at address 0, that maps port 40000 of 2001:db8::1 to port 1024 of
  198.51.100.1, with one session, at address 0, whose deadline has passed.
\<close>

definition ex_bib :: nat64_bib_entry where
  "ex_bib = \<lparr>type = 17, remote6_addr = (0x20010db8, 0, 0, 1), local4_addr = 0xC6336401,
             remote6_port = 40000, local4_port = 1024, sessions = [0]\<rparr>"

definition ex_session :: nat64_st_entry where
  "ex_session = \<lparr>list_bib = 0, st_remote6_addr = (0x20010db8, 0, 0, 1),
                 embedded6_addr = (0x0064ff9b, 0, 0, 0xC6336402), expires = 0, state = CLOSED,
                 st_local4_addr = 0xC6336401, remote4_addr = 0xC6336402, st_remote6_port = 40000,
                 embedded6_port = 53, remote4_port = 53, st_local4_port = 1024\<rparr>"

definition ex_state :: nat64_state where
  "ex_state =
     \<lparr>jiffies = 1000,
      expiry_base = (\<lambda>t. \<lparr>queue = [], timeout = 300\<rparr>)(UDP_DEFAULT := \<lparr>queue = [0], timeout = 300\<rparr>),
      st_mem = (\<lambda>_. ex_session), st_live = {0},
      bib_mem = (\<lambda>_. ex_bib), bib_live = {0},
      hash6 = (\<lambda>_. [])(40001 := [0]),
      hash4 = (\<lambda>_. [])(1024 := [0]),
      free_udp_transport_addr = [],
      pool4 = ex_pool4\<rparr>"

text \<open>The same with a TCP session in state \<open>ESTABLISHED\<close> on the queue of \<open>TCP_EST\<close>.\<close>

definition ex_tcp_state :: nat64_state where
  "ex_tcp_state =
     ex_state\<lparr>expiry_base := (\<lambda>t. \<lparr>queue = [], timeout = 240\<rparr>)(TCP_EST := \<lparr>queue = [0], timeout = 7200\<rparr>),
              st_mem := (\<lambda>_. ex_session\<lparr>state := ESTABLISHED\<rparr>),
              bib_mem := (\<lambda>_. ex_bib\<lparr>type := 6\<rparr>)\<rparr>"

text \<open>
  Two TCP sessions: session 0 in state \<open>V6_SYN_RCV\<close> on the queue of \<open>TCP_TRANS\<close>,
  session 1 in state \<open>ESTABLISHED\<close> on the queue of \<open>TCP_EST\<close>.
\<close>

definition ex_syn_state :: nat64_state where
  "ex_syn_state =
     ex_state\<lparr>expiry_base := (\<lambda>t. \<lparr>queue = [], timeout = 240\<rparr>)
                 (TCP_TRANS := \<lparr>queue = [0], timeout = 240\<rparr>,
                  TCP_EST := \<lparr>queue = [1], timeout = 7200\<rparr>),
              st_mem := (\<lambda>_. ex_session\<lparr>state := ESTABLISHED\<rparr>)
                 (0 := ex_session\<lparr>state := V6_SYN_RCV\<rparr>),
              st_live := {0, 1},
              bib_mem := (\<lambda>_. ex_bib\<lparr>type := 6, sessions := [1, 0]\<rparr>)\<rparr>"

text \<open>
  An instance of the parameter \<open>get_tranport_addr\<close>: the first transport address of the
  free list is handed out.
\<close>

definition pop_transport_addr ::
  "transport_addr_struct list \<Rightarrow> transport_addr_struct option \<times> transport_addr_struct list" where
  "pop_transport_addr l = (case l of [] \<Rightarrow> (None, []) | ta # rest \<Rightarrow> (Some ta, rest))"

text \<open>
  No session and no BIB entry; one free transport address, 198.51.100.1 with port 1024 in
  network byte order.
\<close>

definition ex_empty_state :: nat64_state where
  "ex_empty_state =
     \<lparr>jiffies = 1000,
      expiry_base = (\<lambda>t. \<lparr>queue = [], timeout = 300\<rparr>),
      st_mem = (\<lambda>_. ex_session), st_live = {},
      bib_mem = (\<lambda>_. ex_bib), bib_live = {},
      hash6 = (\<lambda>_. []),
      hash4 = (\<lambda>_. []),
      free_udp_transport_addr = [\<lparr>ta_address = ''198.51.100.1'', ta_port = 4\<rparr>],
      pool4 = ex_pool4\<rparr>"

section \<open>Properties of the pool\<close>

subsection \<open>Lookup and removal of nodes\<close>

lemma get_pool_node_None: "get_pool_node l a = None \<longleftrightarrow> a \<notin> address ` set l"
  by (induction l) auto

lemma get_pool_node_Some_remove:
  "get_pool_node l a = Some i \<Longrightarrow> take i l @ drop (Suc i) l = remove_addr a l"
  by (induction l arbitrary: i) (auto split: if_splits)

lemma get_pool_node_None_remove:
  "get_pool_node l a = None \<Longrightarrow> remove_addr a l = l"
  by (induction l) (auto split: if_splits)

lemma get_pool_node_holds: "(get_pool_node l a = None) = (\<not> holds_addr a l)"
  by (simp add: holds_addr_def get_pool_node_None)

lemma remove_addr_absent: "\<not> holds_addr a l \<Longrightarrow> remove_addr a l = l"
  by (induction l) (auto simp: holds_addr_def)

lemma remove_nodes_Cons:
  "remove_nodes a (pool # pools) deleted s =
   (if holds_addr a (pool_list pool s)
    then remove_nodes a pools (deleted + 1)
           ((pool_list_update pool (remove_addr a) s)\<lparr>node_blocks := node_blocks s - 1\<rparr>)
    else remove_nodes a pools deleted s)"
proof (cases "get_pool_node (pool_list pool s) a")
  case None
  then have "\<not> holds_addr a (pool_list pool s)"
    using get_pool_node_holds [of "pool_list pool s" a] by simp
  with None show ?thesis by simp
next
  case (Some i)
  then have h: "holds_addr a (pool_list pool s)"
    using get_pool_node_holds [of "pool_list pool s" a] by simp
  from Some have "take i (pool_list pool s) @ drop (Suc i) (pool_list pool s) = remove_addr a (pool_list pool s)"
    by (rule get_pool_node_Some_remove)
  then have "destroy_pool_node pool i s = (pool_list_update pool (remove_addr a) s)\<lparr>node_blocks := node_blocks s - 1\<rparr>"
    by (cases pool) (simp_all add: destroy_pool_node_def)
  with Some h show ?thesis by simp
qed

lemma remove_nodes_eq:
  "remove_nodes a [Pools_tcp, Pools_udp, Pools_icmp] 0 s =
     (found_in a s,
      s\<lparr>udp := remove_addr a (udp s), tcp := remove_addr a (tcp s),
        icmp := remove_addr a (icmp s), node_blocks := node_blocks s - found_in a s\<rparr>)"
  by (simp add: remove_nodes_Cons found_in_def remove_addr_absent del: remove_nodes.simps(2))

text \<open>
  Claim C8, as amended. \<^verbatim>\<open>pool4_remove\<close> takes the first node of the address out of each
  of the three pools that holds one. It answers \<open>RESPONSE_NOT_FOUND\<close>, after a log of
  level crit, exactly when the address was in one or in two of the pools. When the
  address was in all three it answers \<open>RESPONSE_SUCCESS\<close>, and so it does when the
  address was in none of them: then the pools are left as they were.
\<close>

theorem pool4_remove_partial_only:
  "pool4_remove (Some a) s =
     (let s' = s\<lparr>udp := remove_addr a (udp s), tcp := remove_addr a (tcp s),
                  icmp := remove_addr a (icmp s), node_blocks := node_blocks s - found_in a s\<rparr>
      in if found_in a s = 1 \<or> found_in a s = 2
         then (RESPONSE_NOT_FOUND, s'\<lparr>klog := klog s @ [Log_crit ERR_POOL4_INCOMPLETE_INDEX]\<rparr>)
         else (RESPONSE_SUCCESS, s'))"
proof -
  have "found_in a s \<le> 3"
    unfolding found_in_def by (rule order_trans [OF length_filter_le]) simp
  then have "(found_in a s \<noteq> 0 \<and> found_in a s \<noteq> pool_count) = (found_in a s = 1 \<or> found_in a s = 2)"
    by (auto simp: pool_count_def)
  then show ?thesis
    by (simp add: pool4_remove_def remove_nodes_eq log_msg_add_def Let_def del: remove_nodes.simps)
qed

theorem pool4_remove_partial_only_witness:
  "found_in 5 (pool4_init\<lparr>udp := [new_pool_node 5]\<rparr>) = 1
   \<and> pool4_remove (Some 5) (pool4_init\<lparr>udp := [new_pool_node 5]\<rparr>) =
       (RESPONSE_NOT_FOUND, pool4_init\<lparr>klog := [Log_crit ERR_POOL4_INCOMPLETE_INDEX]\<rparr>)"
  using pool4_remove_partial_only [of 5 "pool4_init\<lparr>udp := [new_pool_node 5]\<rparr>"]
  by (simp add: found_in_def holds_addr_def pool4_init_def new_pool_node_def)

text \<open>
  Claim C8 as it is stated fails: the address 198.51.100.1 is in none of the three empty
  pools, and its removal answers \<open>RESPONSE_SUCCESS\<close>.
\<close>

theorem pool4_remove_absent_counterexample:
  "found_in 0xC6336401 pool4_init = 0 \<and>
   pool4_remove (Some 0xC6336401) pool4_init = (RESPONSE_SUCCESS, pool4_init)"
  by (simp add: pool4_remove_def pool4_init_def found_in_def holds_addr_def)


subsection \<open>Registration\<close>

lemma kmalloc_nodes_eq:
  "kmalloc_nodes k 0 s =
     (if k 0 \<and> k 1 \<and> k 2 then (True, s\<lparr>node_blocks := node_blocks s + 3\<rparr>)
      else (False, log_msg_add (Log_err ERR_ALLOC_FAILED) s))"
proof -
  have 3: "kmalloc_nodes k (Suc (Suc (Suc 0))) t = (True, t)" for t
    by (subst kmalloc_nodes.simps) (simp add: pool_count_def)
  have 2: "kmalloc_nodes k (Suc (Suc 0)) t =
      (if k 2 then (True, t\<lparr>node_blocks := node_blocks t + 1\<rparr>)
       else (False, log_msg_add (Log_err ERR_ALLOC_FAILED) (kfree_nodes 2 t)))" for t
    by (subst kmalloc_nodes.simps) (simp add: pool_count_def 3 eval_nat_numeral)
  have 1: "kmalloc_nodes k (Suc 0) t =
      (if k 1 then kmalloc_nodes k (Suc (Suc 0)) (t\<lparr>node_blocks := node_blocks t + 1\<rparr>)
       else (False, log_msg_add (Log_err ERR_ALLOC_FAILED) (kfree_nodes 1 t)))" for t
    by (subst kmalloc_nodes.simps) (simp add: pool_count_def)
  have 0: "kmalloc_nodes k 0 t =
      (if k 0 then kmalloc_nodes k (Suc 0) (t\<lparr>node_blocks := node_blocks t + 1\<rparr>)
       else (False, log_msg_add (Log_err ERR_ALLOC_FAILED) (kfree_nodes 0 t)))" for t
    by (subst kmalloc_nodes.simps) (simp add: pool_count_def)
  show ?thesis
    by (simp add: 0 1 2 log_msg_add_def eval_nat_numeral)
qed

lemma pool4_register_eq:
  "pool4_register kmalloc_ok (Some a) s =
     (if kmalloc_ok 0 \<and> kmalloc_ok 1 \<and> kmalloc_ok 2 then
        (RESPONSE_SUCCESS,
         s\<lparr>udp := udp s @ [new_pool_node a], tcp := tcp s @ [new_pool_node a],
           icmp := icmp s @ [new_pool_node a], node_blocks := node_blocks s + 3\<rparr>)
      else (RESPONSE_ALLOC_FAILED, s\<lparr>klog := klog s @ [Log_err ERR_ALLOC_FAILED]\<rparr>))"
  by (simp add: pool4_register_def kmalloc_nodes_eq log_msg_add_def)

text \<open>
  Claim C6. For an address that is given, \<^verbatim>\<open>pool4_register\<close> either succeeds, and then a
  node of the address with its four sections at their initial values is at the end of each
  of the three pools, or one of the three allocations fails, and then it answers
  \<open>RESPONSE_ALLOC_FAILED\<close> with the three pools as they were and every block it had
  obtained given back; only the log has a new line.
\<close>

theorem pool4_register_all_or_nothing:
  "pool4_register kmalloc_ok (Some a) s =
     (if kmalloc_ok 0 \<and> kmalloc_ok 1 \<and> kmalloc_ok 2 then
        (RESPONSE_SUCCESS,
         s\<lparr>udp := udp s @ [new_pool_node a], tcp := tcp s @ [new_pool_node a],
           icmp := icmp s @ [new_pool_node a], node_blocks := node_blocks s + 3\<rparr>)
      else (RESPONSE_ALLOC_FAILED, s\<lparr>klog := klog s @ [Log_err ERR_ALLOC_FAILED]\<rparr>))
   \<and> new_pool_node a =
       \<lparr>address = a,
        odd_low = \<lparr>next_port = 1, max_port = 1023, free_ports = []\<rparr>,
        even_low = \<lparr>next_port = 0, max_port = 1022, free_ports = []\<rparr>,
        odd_high = \<lparr>next_port = 1025, max_port = 65535, free_ports = []\<rparr>,
        even_high = \<lparr>next_port = 1024, max_port = 65534, free_ports = []\<rparr>\<rparr>"
  by (simp add: pool4_register_def kmalloc_nodes_eq log_msg_add_def new_pool_node_def
      init_section_def)

theorem pool4_register_all_or_nothing_witness:
  "pool4_register (\<lambda>i. i \<noteq> 2) (Some 0xC6336401) pool4_init =
     (RESPONSE_ALLOC_FAILED, pool4_init\<lparr>klog := [Log_err ERR_ALLOC_FAILED]\<rparr>)
   \<and> pool4_register (\<lambda>i. True) (Some 0xC6336401) pool4_init =
     (RESPONSE_SUCCESS,
      \<lparr>udp = [new_pool_node 0xC6336401], tcp = [new_pool_node 0xC6336401],
       icmp = [new_pool_node 0xC6336401], node_blocks = 3, klog = []\<rparr>)"
  using pool4_register_all_or_nothing [of "\<lambda>i. i \<noteq> 2" "0xC6336401" pool4_init]
    pool4_register_all_or_nothing [of "\<lambda>i. True" "0xC6336401" pool4_init]
  by (simp add: pool4_init_def)

subsection \<open>Membership\<close>

text \<open>
  Claim C10. \<^verbatim>\<open>pool4_contains\<close> is true exactly when the UDP pool has a node of the
  address. The TCP and ICMP pools have no part in the answer: an address that only they
  hold is reported as absent.
\<close>

theorem pool4_contains_udp_only:
  "pool4_contains a s = (a \<in> address ` set (udp s))
   \<and> pool4_contains a (s\<lparr>tcp := t, icmp := i\<rparr>) = pool4_contains a s
   \<and> (a \<in> address ` set (tcp s) \<and> a \<in> address ` set (icmp s) \<and> a \<notin> address ` set (udp s)
        \<longrightarrow> \<not> pool4_contains a s)"
  by (simp add: pool4_contains_def get_pool_node_None)

theorem pool4_contains_udp_only_witness:
  "5 \<in> address ` set (tcp (pool4_init\<lparr>tcp := [new_pool_node 5], icmp := [new_pool_node 5]\<rparr>))
   \<and> 5 \<in> address ` set (icmp (pool4_init\<lparr>tcp := [new_pool_node 5], icmp := [new_pool_node 5]\<rparr>))
   \<and> 5 \<notin> address ` set (udp (pool4_init\<lparr>tcp := [new_pool_node 5], icmp := [new_pool_node 5]\<rparr>))
   \<and> \<not> pool4_contains 5 (pool4_init\<lparr>tcp := [new_pool_node 5], icmp := [new_pool_node 5]\<rparr>)"
  using pool4_contains_udp_only
    [of 5 "pool4_init\<lparr>tcp := [new_pool_node 5], icmp := [new_pool_node 5]\<rparr>"]
  by (simp add: pool4_init_def new_pool_node_def)

subsection \<open>Extraction and return of ports\<close>

lemma get_section_in_section: "in_section (get_section a) (unat (l4_id a))"
  by (simp add: get_section_def in_section_def even_iff_mod_2_eq_zero)

lemma in_section_unique: "in_section sp p \<Longrightarrow> in_section sp' p \<Longrightarrow> sp = sp'"
  by (cases sp; cases sp') (auto simp: in_section_def)

lemma get_section_iff: "get_section a = sp \<longleftrightarrow> in_section sp (unat (l4_id a))"
  using get_section_in_section in_section_unique by blast

lemma in_section_same_class:
  "in_section sp p \<Longrightarrow> in_section sp q \<Longrightarrow> even p = even q \<and> (p < 1024) = (q < 1024)"
  by (simp add: in_section_def)

lemma in_section_next:
  assumes "in_section sp p" "p + 2 \<le> m" "m \<le> (if sp = Odd_low \<or> sp = Even_low then 1023 else 65535)"
  shows "in_section sp (p + 2)"
  using assms by (cases sp) (auto simp: in_section_def)

lemma extract_any_port_inv:
  assumes inv: "section_inv sp sec" and ex: "extract_any_port sec = Some (p, sec')"
  shows "in_section sp (unat p) \<and> section_inv sp sec'"
proof (cases "free_ports sec")
  case (Cons q qs)
  with ex have "p = q" "sec' = sec\<lparr>free_ports := qs\<rparr>"
    by (simp_all add: extract_any_port_def)
  with inv Cons show ?thesis
    by (simp add: section_inv_def)
next
  case Nil
  with ex have le: "next_port sec \<le> max_port sec"
    and p: "p = ucast (next_port sec)"
    and sec': "sec' = sec\<lparr>next_port := next_port sec + 2\<rparr>"
    by (auto simp: extract_any_port_def split: if_splits)
  have max: "unat (max_port sec) \<le> (if sp = Odd_low \<or> sp = Even_low then 1023 else 65535)"
    using inv by (simp add: section_inv_def)
  then have max': "unat (max_port sec) \<le> 65535"
    by (simp split: if_splits)
  have nle: "unat (next_port sec) \<le> unat (max_port sec)"
    using le by (simp add: word_le_nat_alt)
  have cur: "in_section sp (unat (next_port sec))"
    using inv le by (simp add: section_inv_def)
  have up: "unat p = unat (next_port sec)"
    using nle max' by (simp add: p unsigned_ucast_eq take_bit_nat_eq_self)
  have add: "unat (next_port sec + 2) = unat (next_port sec) + 2"
    using nle max' by (simp add: unat_word_ariths)
  have "next_port sec + 2 \<le> max_port sec \<longrightarrow> in_section sp (unat (next_port sec + 2))"
  proof
    assume "next_port sec + 2 \<le> max_port sec"
    then have h: "unat (next_port sec) + 2 \<le> unat (max_port sec)"
      by (simp add: word_le_nat_alt add)
    show "in_section sp (unat (next_port sec + 2))"
      unfolding add by (rule in_section_next [OF cur h max])
  qed
  with inv cur up show ?thesis
    by (simp add: section_inv_def sec' Nil)
qed

lemma node_inv_section_update:
  "node_inv n \<Longrightarrow> section_inv sp sec \<Longrightarrow> node_inv (section_update sp sec n)"
  unfolding node_inv_def
proof
  fix sp'
  assume a: "\<forall>sp. section_inv sp (section_of n sp)" "section_inv sp sec"
  then have "section_inv sp' (section_of n sp')" by blast
  with a(2) show "section_inv sp' (section_of (section_update sp sec n) sp')"
    by (cases sp; cases sp') simp_all
qed

lemma node_inv_new: "node_inv (new_pool_node a)"
  unfolding node_inv_def
proof
  fix sp
  show "section_inv sp (section_of (new_pool_node a) sp)"
    by (cases sp) (simp_all add: new_pool_node_def init_section_def section_inv_def in_section_def)
qed

lemma get_any_nodes_inv:
  assumes "\<forall>n \<in> set l. node_inv n" and "get_any_nodes hp l = Some (r, l')"
  shows "in_section (get_section \<lparr>tuple_address = x, l4_id = hp\<rparr>) (unat (l4_id r))
       \<and> (\<forall>n \<in> set l'. node_inv n)"
  using assms
proof (induction l arbitrary: r l')
  case Nil
  then show ?case by simp
next
  case (Cons node rest)
  let ?sp = "get_section \<lparr>tuple_address = address node, l4_id = hp\<rparr>"
  have sp: "get_section \<lparr>tuple_address = x, l4_id = hp\<rparr> = ?sp"
    by (simp add: get_section_def)
  show ?case
  proof (cases "extract_any_port (section_of node ?sp)")
    case None
    with Cons.prems(2) obtain rest' where
      rec: "get_any_nodes hp rest = Some (r, rest')" and l': "l' = node # rest'"
      by (auto simp: Let_def)
    from Cons.prems(1) have "\<forall>n \<in> set rest. node_inv n" by simp
    from Cons.IH [OF this rec] Cons.prems(1) show ?thesis
      by (simp add: l')
  next
    case (Some a)
    obtain p sec' where a: "a = (p, sec')" by (cases a)
    from Cons.prems(2) Some a have r: "r = \<lparr>tuple_address = address node, l4_id = p\<rparr>"
      and l': "l' = section_update ?sp sec' node # rest"
      by (simp_all add: Let_def)
    have "section_inv ?sp (section_of node ?sp)"
      using Cons.prems(1) by (simp add: node_inv_def)
    from extract_any_port_inv [OF this Some [unfolded a]]
    have "in_section ?sp (unat p)" "section_inv ?sp sec'" by simp_all
    with Cons.prems(1) show ?thesis
      by (simp add: l' r sp node_inv_section_update)
  qed
qed


lemma section_of_update:
  "section_of (section_update sp x n) sp' = (if sp' = sp then x else section_of n sp')"
  by (cases sp; cases sp') simp_all

lemma pool_list_log [simp]: "pool_list pool (log_msg_add m s) = pool_list pool s"
  by (cases pool) (simp_all add: log_msg_add_def)

lemma pool_list_node_blocks [simp]: "pool_list pool (s\<lparr>node_blocks := k\<rparr>) = pool_list pool s"
  by (cases pool) simp_all

lemma pool_list_update_other:
  "pool_list pool' (pool_list_update pool f s) =
     (if pool' = pool then f (pool_list pool s) else pool_list pool' s)"
  by (cases pool; cases pool') simp_all

lemma get_pool_node_length: "get_pool_node l a = Some i \<Longrightarrow> i < length l \<and> address (l ! i) = a"
  by (induction l arbitrary: i) (auto split: if_splits)

lemma next_ports_log [simp]: "next_ports (log_msg_add m s) = next_ports s"
  by (simp add: next_ports_def)

lemma get_pool_cases:
  "get_pool p s = (Some pool, s') \<Longrightarrow> s' = s"
  "get_pool p s = (None, s') \<Longrightarrow> s' = log_msg_add (Log_crit ERR_L4PROTO) s"
  by (auto simp: get_pool_def split: if_splits)

lemma pool4_return_True:
  assumes "pool4_return kmalloc_ok l4protocol (Some a) s = (True, s')"
  shows "\<exists>pool i. get_pool l4protocol s = (Some pool, s)
           \<and> get_pool_node (pool_list pool s) (tuple_address a) = Some i
           \<and> s' = pool_list_update pool
                  (\<lambda>l. l[i := section_update (get_section a)
                     ((section_of (l ! i) (get_section a))
                        \<lparr>free_ports := free_ports (section_of (l ! i) (get_section a)) @ [l4_id a]\<rparr>)
                     (l ! i)]) s"
proof (cases "get_pool l4protocol s")
  case (Pair po s1)
  show ?thesis
  proof (cases po)
    case None
    with assms Pair show ?thesis by (simp add: pool4_return_def)
  next
    case (Some pool)
    with Pair have s1: "s1 = s" by (simp add: get_pool_cases)
    show ?thesis
    proof (cases "get_pool_node (pool_list pool s) (tuple_address a)")
      case None
      with assms Pair Some s1 show ?thesis by (simp add: pool4_return_def)
    next
      case i: (Some i)
      have "s' = pool_list_update pool
                  (\<lambda>l. l[i := section_update (get_section a)
                     ((section_of (pool_list pool s ! i) (get_section a))
                        \<lparr>free_ports := free_ports (section_of (pool_list pool s ! i) (get_section a)) @ [l4_id a]\<rparr>)
                     (pool_list pool s ! i)]) s"
        using assms Pair Some s1 i by (simp add: pool4_return_def Let_def split: if_splits)
      also have "\<dots> = pool_list_update pool
                  (\<lambda>l. l[i := section_update (get_section a)
                     ((section_of (l ! i) (get_section a))
                        \<lparr>free_ports := free_ports (section_of (l ! i) (get_section a)) @ [l4_id a]\<rparr>)
                     (l ! i)]) s"
        by (cases pool) simp_all
      finally show ?thesis
        using Pair Some s1 i by blast
    qed
  qed
qed

lemma pool4_return_False:
  assumes "pool4_return kmalloc_ok l4protocol ta s = (False, s')"
  shows "\<exists>m. s' = log_msg_add m s"
proof (cases ta)
  case None
  with assms show ?thesis by (auto simp: pool4_return_def)
next
  case (Some a)
  show ?thesis
  proof (cases "get_pool l4protocol s")
    case (Pair po s1)
    show ?thesis
    proof (cases po)
      case None
      with assms Pair Some show ?thesis by (auto simp: pool4_return_def dest: get_pool_cases(2))
    next
      case po: (Some pool)
      with Pair have s1: "s1 = s" by (simp add: get_pool_cases)
      with assms Pair Some po show ?thesis
        by (auto simp: pool4_return_def Let_def split: option.splits if_splits)
    qed
  qed
qed

lemma node_next_ports_update_free:
  "node_next_ports (section_update sp ((section_of n sp)\<lparr>free_ports := f\<rparr>) n) = node_next_ports n"
  by (cases sp) (simp_all add: node_next_ports_def)

lemma map_update_same: "i < length l \<Longrightarrow> f x = f (l ! i) \<Longrightarrow> map f (l[i := x]) = map f l"
  by (simp add: map_update list_update_same_conv)

lemma pool4_return_next_ports:
  "next_ports (snd (pool4_return kmalloc_ok l4protocol ta s)) = next_ports s"
proof (cases "pool4_return kmalloc_ok l4protocol ta s")
  case (Pair ok s')
  show ?thesis
  proof (cases ok)
    case False
    with Pair pool4_return_False show ?thesis by fastforce
  next
    case True
    with Pair obtain a where ta: "ta = Some a"
      by (cases ta) (auto simp: pool4_return_def)
    from Pair True ta have "pool4_return kmalloc_ok l4protocol (Some a) s = (True, s')"
      by simp
    from pool4_return_True [OF this] obtain pool i where
      i: "get_pool_node (pool_list pool s) (tuple_address a) = Some i"
      and s': "s' = pool_list_update pool
                  (\<lambda>l. l[i := section_update (get_section a)
                     ((section_of (l ! i) (get_section a))
                        \<lparr>free_ports := free_ports (section_of (l ! i) (get_section a)) @ [l4_id a]\<rparr>)
                     (l ! i)]) s"
      by blast
    have len: "i < length (pool_list pool s)"
      using get_pool_node_length [OF i] by simp
    have "map node_next_ports (pool_list pool' s') = map node_next_ports (pool_list pool' s)" for pool'
      using len by (simp add: s' pool_list_update_other map_update_same node_next_ports_update_free)
    then show ?thesis
      by (simp add: Pair next_ports_def)
  qed
qed

lemma ex_return:
  "pool4_return True IPPROTO_UDP (Some \<lparr>tuple_address = 0xC6336401, l4_id = 1024\<rparr>) ex_pool4 =
     (True, ex_pool4\<lparr>udp := [(new_pool_node 0xC6336401)
        \<lparr>even_high := \<lparr>next_port = 1026, max_port = 65534, free_ports = [1024]\<rparr>\<rparr>]\<rparr>)"
  by (simp add: pool4_return_def get_pool_def IPPROTO_UDP_def get_section_def ex_pool4_def
      new_pool_node_def init_section_def Let_def)

text \<open>
  Claim C5. \<^verbatim>\<open>extract_any_port\<close> takes the first port of the list of free ports when
  there is one; otherwise, when \<^verbatim>\<open>next_port\<close> is at most \<^verbatim>\<open>max_port\<close>, it yields
  \<^verbatim>\<open>next_port\<close> and adds 2 to it (with an upper bound of at most 65535, as all registered
  sections have, the 16-bit result is the number itself, the addition does not wrap and the
  parity stays); otherwise it fails. When \<^verbatim>\<open>pool4_return\<close> succeeds, the port is the new
  last element of the list of free ports of the section, of the first node of the address,
  that has the parity and the range of the port, and no other list of free ports changes.
  In no case does \<^verbatim>\<open>pool4_return\<close> change a \<^verbatim>\<open>next_port\<close>.
\<close>

theorem port_extraction_and_return_discipline:
  "(free_ports sec = p # ps \<longrightarrow> extract_any_port sec = Some (p, sec\<lparr>free_ports := ps\<rparr>))
   \<and> (free_ports sec = [] \<and> next_port sec \<le> max_port sec \<longrightarrow>
        extract_any_port sec =
          Some (ucast (next_port sec), sec\<lparr>next_port := next_port sec + 2\<rparr>))
   \<and> (free_ports sec = [] \<and> next_port sec \<le> max_port sec \<and> unat (max_port sec) \<le> 65535 \<longrightarrow>
        unat (ucast (next_port sec) :: u16) = unat (next_port sec)
        \<and> unat (next_port sec + 2) = unat (next_port sec) + 2
        \<and> even (unat (next_port sec + 2)) = even (unat (next_port sec)))
   \<and> (free_ports sec = [] \<and> \<not> next_port sec \<le> max_port sec \<longrightarrow> extract_any_port sec = None)
   \<and> (pool4_return kmalloc_ok l4protocol (Some a) s = (True, s') \<longrightarrow>
        (\<exists>pool i. fst (get_pool l4protocol s) = Some pool
           \<and> get_pool_node (pool_list pool s) (tuple_address a) = Some i
           \<and> free_ports (section_of (pool_list pool s' ! i) (get_section a)) =
               free_ports (section_of (pool_list pool s ! i) (get_section a)) @ [l4_id a]
           \<and> (\<forall>pool' j sp. (pool', j, sp) \<noteq> (pool, i, get_section a) \<longrightarrow>
                 free_ports (section_of (pool_list pool' s' ! j) sp) =
                 free_ports (section_of (pool_list pool' s ! j) sp)))
        \<and> in_section (get_section a) (unat (l4_id a)))
   \<and> next_ports (snd (pool4_return kmalloc_ok l4protocol ta s)) = next_ports s"
proof (intro conjI impI)
  assume "free_ports sec = p # ps"
  then show "extract_any_port sec = Some (p, sec\<lparr>free_ports := ps\<rparr>)"
    by (simp add: extract_any_port_def)
next
  assume "free_ports sec = [] \<and> next_port sec \<le> max_port sec"
  then show "extract_any_port sec =
      Some (ucast (next_port sec), sec\<lparr>next_port := next_port sec + 2\<rparr>)"
    by (simp add: extract_any_port_def not_less [symmetric])
next
  assume a: "free_ports sec = [] \<and> next_port sec \<le> max_port sec \<and> unat (max_port sec) \<le> 65535"
  then have le: "unat (next_port sec) \<le> 65535"
    by (simp add: word_le_nat_alt)
  then show "unat (ucast (next_port sec) :: u16) = unat (next_port sec)"
    by (simp add: unsigned_ucast_eq take_bit_nat_eq_self)
  from le show add: "unat (next_port sec + 2) = unat (next_port sec) + 2"
    by (simp add: unat_word_ariths)
  show "even (unat (next_port sec + 2)) = even (unat (next_port sec))"
    by (simp add: add)
next
  assume "free_ports sec = [] \<and> \<not> next_port sec \<le> max_port sec"
  then show "extract_any_port sec = None"
    by (simp add: extract_any_port_def not_le)
next
  assume r: "pool4_return kmalloc_ok l4protocol (Some a) s = (True, s')"
  from pool4_return_True [OF r] obtain pool i where
    p: "get_pool l4protocol s = (Some pool, s)"
    and i: "get_pool_node (pool_list pool s) (tuple_address a) = Some i"
    and s': "s' = pool_list_update pool
                  (\<lambda>l. l[i := section_update (get_section a)
                     ((section_of (l ! i) (get_section a))
                        \<lparr>free_ports := free_ports (section_of (l ! i) (get_section a)) @ [l4_id a]\<rparr>)
                     (l ! i)]) s"
    by blast
  have len: "i < length (pool_list pool s)"
    using get_pool_node_length [OF i] by simp
  have 1: "free_ports (section_of (pool_list pool s' ! i) (get_section a)) =
      free_ports (section_of (pool_list pool s ! i) (get_section a)) @ [l4_id a]"
    using len by (simp add: s' pool_list_update_other section_of_update)
  have 2: "\<forall>pool' j sp. (pool', j, sp) \<noteq> (pool, i, get_section a) \<longrightarrow>
      free_ports (section_of (pool_list pool' s' ! j) sp) =
      free_ports (section_of (pool_list pool' s ! j) sp)"
    using len by (auto simp: s' pool_list_update_other section_of_update nth_list_update)
  show "\<exists>pool i. fst (get_pool l4protocol s) = Some pool
           \<and> get_pool_node (pool_list pool s) (tuple_address a) = Some i
           \<and> free_ports (section_of (pool_list pool s' ! i) (get_section a)) =
               free_ports (section_of (pool_list pool s ! i) (get_section a)) @ [l4_id a]
           \<and> (\<forall>pool' j sp. (pool', j, sp) \<noteq> (pool, i, get_section a) \<longrightarrow>
                 free_ports (section_of (pool_list pool' s' ! j) sp) =
                 free_ports (section_of (pool_list pool' s ! j) sp))"
    using p i 1 2 by (intro exI [of _ pool] exI [of _ i]) simp
next
  show "in_section (get_section a) (unat (l4_id a))"
    by (rule get_section_in_section)
next
  show "next_ports (snd (pool4_return kmalloc_ok l4protocol ta s)) = next_ports s"
    by (rule pool4_return_next_ports)
qed


theorem port_extraction_and_return_discipline_witness:
  "extract_any_port \<lparr>next_port = 1026, max_port = 65534, free_ports = [1024, 2048]\<rparr> =
     Some (1024, \<lparr>next_port = 1026, max_port = 65534, free_ports = [2048]\<rparr>)
   \<and> extract_any_port \<lparr>next_port = 1026, max_port = 65534, free_ports = []\<rparr> =
     Some (1026, \<lparr>next_port = 1028, max_port = 65534, free_ports = []\<rparr>)
   \<and> extract_any_port \<lparr>next_port = 65536, max_port = 65534, free_ports = []\<rparr> = None
   \<and> pool4_return True IPPROTO_UDP (Some \<lparr>tuple_address = 0xC6336401, l4_id = 1024\<rparr>) ex_pool4 =
     (True, ex_pool4\<lparr>udp := [(new_pool_node 0xC6336401)
        \<lparr>even_high := \<lparr>next_port = 1026, max_port = 65534, free_ports = [1024]\<rparr>\<rparr>]\<rparr>)
   \<and> get_section \<lparr>tuple_address = 0xC6336401, l4_id = 1024\<rparr> = Even_high
   \<and> next_ports (ex_pool4\<lparr>udp := [(new_pool_node 0xC6336401)
        \<lparr>even_high := \<lparr>next_port = 1026, max_port = 65534, free_ports = [1024]\<rparr>\<rparr>]\<rparr>) =
       next_ports ex_pool4"
proof -
  have g: "get_section \<lparr>tuple_address = 0xC6336401, l4_id = 1024\<rparr> = Even_high"
    by (simp add: get_section_def)
  show ?thesis
    using port_extraction_and_return_discipline
        [of "\<lparr>next_port = 1026, max_port = 65534, free_ports = [1024, 2048]\<rparr>" 1024 "[2048]"
            True IPPROTO_UDP "\<lparr>tuple_address = 0xC6336401, l4_id = 1024\<rparr>" ex_pool4
            "ex_pool4\<lparr>udp := [(new_pool_node 0xC6336401)
               \<lparr>even_high := \<lparr>next_port = 1026, max_port = 65534, free_ports = [1024]\<rparr>\<rparr>]\<rparr>"
            "Some \<lparr>tuple_address = 0xC6336401, l4_id = 1024\<rparr>"]
      port_extraction_and_return_discipline
        [of "\<lparr>next_port = 1026, max_port = 65534, free_ports = []\<rparr>"]
      port_extraction_and_return_discipline
        [of "\<lparr>next_port = 65536, max_port = 65534, free_ports = []\<rparr>"]
    by (simp add: ex_return g)
qed


subsection \<open>The invariant holds in every reachable state\<close>

lemma pool4_inv_log [simp]: "pool4_inv (log_msg_add m s) = pool4_inv s"
  by (simp add: pool4_inv_def)

lemma pool4_inv_update:
  "pool4_inv s \<Longrightarrow> \<forall>n \<in> set (f (pool_list pool s)). node_inv n \<Longrightarrow>
   pool4_inv (pool_list_update pool f s)"
  by (simp add: pool4_inv_def pool_list_update_other)

lemma pool4_inv_init: "pool4_inv pool4_init"
proof -
  have "pool_list pool pool4_init = []" for pool
    by (cases pool) (simp_all add: pool4_init_def)
  then show ?thesis by (simp add: pool4_inv_def)
qed

lemma pool4_inv_register: "pool4_inv s \<Longrightarrow> pool4_inv (snd (pool4_register kmalloc_ok a s))"
proof (cases a)
  case None
  assume "pool4_inv s"
  with None show ?thesis by (simp add: pool4_register_def)
next
  case (Some x)
  assume inv: "pool4_inv s"
  have 1: "pool_list pool (s\<lparr>udp := udp s @ [new_pool_node x], tcp := tcp s @ [new_pool_node x],
           icmp := icmp s @ [new_pool_node x], node_blocks := node_blocks s + 3\<rparr>)
         = pool_list pool s @ [new_pool_node x]" for pool
    by (cases pool) simp_all
  have 2: "pool_list pool (s\<lparr>klog := k\<rparr>) = pool_list pool s" for pool k
    by (cases pool) simp_all
  have "pool4_inv (s\<lparr>udp := udp s @ [new_pool_node x], tcp := tcp s @ [new_pool_node x],
           icmp := icmp s @ [new_pool_node x], node_blocks := node_blocks s + 3\<rparr>)"
    unfolding pool4_inv_def 1 using inv by (simp add: pool4_inv_def node_inv_new)
  moreover have "pool4_inv (s\<lparr>klog := k\<rparr>)" for k
    unfolding pool4_inv_def 2 using inv by (simp add: pool4_inv_def)
  ultimately show ?thesis
    unfolding Some pool4_register_eq by simp
qed

lemma set_remove_addr: "set (remove_addr a l) \<subseteq> set l"
  by (induction l) auto

lemma pool4_inv_remove: "pool4_inv s \<Longrightarrow> pool4_inv (snd (pool4_remove a s))"
proof (cases a)
  case None
  assume "pool4_inv s"
  with None show ?thesis by (simp add: pool4_remove_def)
next
  case (Some x)
  assume inv: "pool4_inv s"
  let ?s' = "s\<lparr>udp := remove_addr x (udp s), tcp := remove_addr x (tcp s),
        icmp := remove_addr x (icmp s), node_blocks := node_blocks s - found_in x s\<rparr>"
  have 1: "pool_list pool ?s' = remove_addr x (pool_list pool s)" for pool
    by (cases pool) simp_all
  have "pool4_inv ?s'"
    using inv set_remove_addr [of x] unfolding pool4_inv_def 1 by blast
  then show ?thesis
    by (simp add: Some pool4_remove_def remove_nodes_eq del: remove_nodes.simps)
qed

lemma pool4_inv_destroy: "pool4_inv s \<Longrightarrow> pool4_inv (pool4_destroy s)"
proof -
  have "pool_list pool (pool4_destroy s) = []" for pool
    by (cases pool) (simp_all add: pool4_destroy_def)
  then show ?thesis by (simp add: pool4_inv_def)
qed

lemma get_pool_state: "get_pool p s = (r, s') \<Longrightarrow> pool4_inv s' = pool4_inv s \<and> (\<forall>pool. pool_list pool s' = pool_list pool s)"
  by (auto simp: get_pool_def split: if_splits)

lemma set_list_update_inv:
  "\<forall>n \<in> set l. P n \<Longrightarrow> P x \<Longrightarrow> \<forall>n \<in> set (l[i := x]). P n"
  using set_update_subset_insert [of l i x] by auto

lemma pool4_get_any_inv:
  assumes inv: "pool4_inv s"
    and get: "pool4_get_any big_endian l4protocol port result s = (ok, r, s')"
  shows "pool4_inv s'
       \<and> (ok \<longrightarrow> in_section (get_section \<lparr>tuple_address = x, l4_id = be16_to_cpu big_endian port\<rparr>)
                    (unat (l4_id r)))"
proof (cases "get_pool l4protocol s")
  case (Pair po s1)
  from get_pool_state [OF Pair] inv
  have inv1: "pool4_inv s1" by simp
  show ?thesis
  proof (cases po)
    case None
    with get Pair inv1 show ?thesis by (auto simp: pool4_get_any_def)
  next
    case (Some pool)
    show ?thesis
    proof (cases "pool_list pool s1 = []")
      case True
      with get Pair Some inv1 show ?thesis by (auto simp: pool4_get_any_def)
    next
      case False
      show ?thesis
      proof (cases "get_any_nodes (be16_to_cpu big_endian port) (pool_list pool s1)")
        case None
        with get Pair Some False inv1 show ?thesis by (auto simp: pool4_get_any_def)
      next
        case (Some a)
        obtain r' l' where a: "a = (r', l')" by (cases a)
        have all: "\<forall>n \<in> set (pool_list pool s1). node_inv n"
          using inv1 by (simp add: pool4_inv_def)
        from get_any_nodes_inv [OF all Some [unfolded a], of x]
        have cls: "in_section (get_section \<lparr>tuple_address = x, l4_id = be16_to_cpu big_endian port\<rparr>)
                     (unat (l4_id r'))"
          and l': "\<forall>n \<in> set l'. node_inv n" by simp_all
        from get Pair \<open>po = Some pool\<close> False Some a
        have res: "ok" "r = r'" "s' = pool_list_update pool (\<lambda>_. l') s1"
          by (simp_all add: pool4_get_any_def)
        have "pool4_inv s'"
          unfolding res using inv1 l' by (rule pool4_inv_update)
        with cls res show ?thesis by simp
      qed
    qed
  qed
qed

lemma pool4_get_similar_inv:
  assumes inv: "pool4_inv s"
  shows "pool4_inv (snd (snd (pool4_get_similar l4protocol ta result s)))"
proof (cases ta)
  case None
  with inv show ?thesis by (simp add: pool4_get_similar_def)
next
  case (Some a)
  show ?thesis
  proof (cases "get_pool l4protocol s")
    case (Pair po s1)
    from get_pool_state [OF Pair] inv have inv1: "pool4_inv s1" by simp
    show ?thesis
    proof (cases po)
      case None
      with Some Pair inv1 show ?thesis by (simp add: pool4_get_similar_def)
    next
      case po: (Some pool)
      show ?thesis
      proof (cases "get_pool_node (pool_list pool s1) (tuple_address a)")
        case None
        with Some Pair po inv1 show ?thesis by (simp add: pool4_get_similar_def)
      next
        case i: (Some i)
        let ?node = "pool_list pool s1 ! i"
        have len: "i < length (pool_list pool s1)"
          using get_pool_node_length [OF i] by simp
        have all: "\<forall>n \<in> set (pool_list pool s1). node_inv n"
          using inv1 by (simp add: pool4_inv_def)
        then have node: "node_inv ?node"
          using len by simp
        show ?thesis
        proof (cases "extract_any_port (section_of ?node (get_section a))")
          case None
          with Some Pair po i inv1 show ?thesis by (simp add: pool4_get_similar_def Let_def)
        next
          case ex: (Some b)
          obtain p sec' where b: "b = (p, sec')" by (cases b)
          have "section_inv (get_section a) (section_of ?node (get_section a))"
            using node by (simp add: node_inv_def)
          from extract_any_port_inv [OF this ex [unfolded b]]
          have "section_inv (get_section a) sec'" by simp
          with node have "node_inv (section_update (get_section a) sec' ?node)"
            by (rule node_inv_section_update)
          with all have "\<forall>n \<in> set ((pool_list pool s1)[i := section_update (get_section a) sec' ?node]). node_inv n"
            by (rule set_list_update_inv)
          with inv1 have "pool4_inv (pool_list_update pool
              (\<lambda>l. l[i := section_update (get_section a) sec' ?node]) s1)"
            by (rule pool4_inv_update)
          with Some Pair po i ex b show ?thesis
            by (simp add: pool4_get_similar_def Let_def)
        qed
      qed
    qed
  qed
qed

lemma pool4_return_inv:
  assumes inv: "pool4_inv s"
  shows "pool4_inv (snd (pool4_return kmalloc_ok l4protocol ta s))"
proof (cases ta)
  case None
  with inv show ?thesis by (simp add: pool4_return_def)
next
  case (Some a)
  show ?thesis
  proof (cases "get_pool l4protocol s")
    case (Pair po s1)
    from get_pool_state [OF Pair] inv have inv1: "pool4_inv s1" by simp
    show ?thesis
    proof (cases po)
      case None
      with Some Pair inv1 show ?thesis by (simp add: pool4_return_def)
    next
      case po: (Some pool)
      show ?thesis
      proof (cases "get_pool_node (pool_list pool s1) (tuple_address a)")
        case None
        with Some Pair po inv1 show ?thesis by (simp add: pool4_return_def)
      next
        case i: (Some i)
        let ?node = "pool_list pool s1 ! i"
        let ?sec = "section_of ?node (get_section a)"
        have len: "i < length (pool_list pool s1)"
          using get_pool_node_length [OF i] by simp
        have all: "\<forall>n \<in> set (pool_list pool s1). node_inv n"
          using inv1 by (simp add: pool4_inv_def)
        then have node: "node_inv ?node"
          using len by simp
        then have "section_inv (get_section a) ?sec"
          by (simp add: node_inv_def)
        then have "section_inv (get_section a) (?sec\<lparr>free_ports := free_ports ?sec @ [l4_id a]\<rparr>)"
          by (simp add: section_inv_def get_section_in_section)
        with node have "node_inv (section_update (get_section a)
            (?sec\<lparr>free_ports := free_ports ?sec @ [l4_id a]\<rparr>) ?node)"
          by (rule node_inv_section_update)
        with all have "\<forall>n \<in> set ((pool_list pool s1)[i := section_update (get_section a)
            (?sec\<lparr>free_ports := free_ports ?sec @ [l4_id a]\<rparr>) ?node]). node_inv n"
          by (rule set_list_update_inv)
        with inv1 have "pool4_inv (pool_list_update pool
              (\<lambda>l. l[i := section_update (get_section a)
                (?sec\<lparr>free_ports := free_ports ?sec @ [l4_id a]\<rparr>) ?node]) s1)"
          by (rule pool4_inv_update)
        with Some Pair po i inv1 show ?thesis
          by (simp add: pool4_return_def Let_def)
      qed
    qed
  qed
qed

lemma pool4_reachable_inv: "pool4_reachable s \<Longrightarrow> pool4_inv s"
proof (induction rule: pool4_reachable.induct)
  case init
  show ?case by (rule pool4_inv_init)
next
  case (register s kmalloc_ok a)
  then show ?case by (simp add: pool4_inv_register)
next
  case (remove s a)
  then show ?case by (simp add: pool4_inv_remove)
next
  case (get_any s big_endian l4protocol port result)
  obtain ok r s' where g: "pool4_get_any big_endian l4protocol port result s = (ok, r, s')"
    by (cases "pool4_get_any big_endian l4protocol port result s") auto
  from pool4_get_any_inv [OF get_any.IH g] show ?case
    by (simp add: g)
next
  case (get_similar s l4protocol ta result)
  then show ?case by (simp add: pool4_get_similar_inv)
next
  case (return s kmalloc_ok l4protocol ta)
  then show ?case by (simp add: pool4_return_inv)
next
  case (destroy s)
  then show ?case by (simp add: pool4_inv_destroy)
qed

lemma ex_register: "snd (pool4_register (\<lambda>i. True) (Some 0xC6336401) pool4_init) =
    \<lparr>udp = [new_pool_node 0xC6336401], tcp = [new_pool_node 0xC6336401],
     icmp = [new_pool_node 0xC6336401], node_blocks = 3, klog = []\<rparr>"
  by (simp add: pool4_register_eq pool4_init_def)

lemma ex_get_any:
  "pool4_get_any False IPPROTO_UDP 16540 \<lparr>tuple_address = 0, l4_id = 0\<rparr>
     (snd (pool4_register (\<lambda>i. True) (Some 0xC6336401) pool4_init)) =
   (True, \<lparr>tuple_address = 0xC6336401, l4_id = 1024\<rparr>, ex_pool4)"
  unfolding ex_register
  by (simp add: pool4_get_any_def get_pool_def IPPROTO_UDP_def IPPROTO_TCP_def be16_to_cpu_def
      swab16_def get_section_def extract_any_port_def new_pool_node_def init_section_def
      ex_pool4_def Let_def)

text \<open>
  Claim C2. In every reachable state of the pools, for every protocol and every requested
  port, the port of the transport address that a successful \<^verbatim>\<open>pool4_get_any\<close> returns is
  even exactly when the requested port, read in host byte order, is even, and below 1024
  exactly when that one is.
\<close>

theorem pool4_get_any_preserves_parity_and_range:
  assumes "pool4_reachable s"
    and "pool4_get_any big_endian l4protocol port result s = (True, r, s')"
  shows "even (unat (l4_id r)) = even (unat (be16_to_cpu big_endian port))
       \<and> (unat (l4_id r) < 1024) = (unat (be16_to_cpu big_endian port) < 1024)"
proof -
  let ?a = "\<lparr>tuple_address = 0, l4_id = be16_to_cpu big_endian port\<rparr>"
  have "pool4_inv s"
    using assms(1) by (rule pool4_reachable_inv)
  from pool4_get_any_inv [OF this assms(2), of 0]
  have "in_section (get_section ?a) (unat (l4_id r))" by simp
  moreover have "in_section (get_section ?a) (unat (be16_to_cpu big_endian port))"
    using get_section_in_section [of ?a] by simp
  ultimately show ?thesis
    by (rule in_section_same_class)
qed


theorem pool4_get_any_preserves_parity_and_range_witness:
  "pool4_reachable (snd (pool4_register (\<lambda>i. True) (Some 0xC6336401) pool4_init))
   \<and> pool4_get_any False IPPROTO_UDP 16540 \<lparr>tuple_address = 0, l4_id = 0\<rparr>
        (snd (pool4_register (\<lambda>i. True) (Some 0xC6336401) pool4_init)) =
      (True, \<lparr>tuple_address = 0xC6336401, l4_id = 1024\<rparr>, ex_pool4)
   \<and> be16_to_cpu False 16540 = 40000
   \<and> even (unat (l4_id \<lparr>tuple_address = 0xC6336401, l4_id = 1024\<rparr>)) =
       even (unat (be16_to_cpu False 16540))
   \<and> (unat (l4_id \<lparr>tuple_address = 0xC6336401, l4_id = 1024\<rparr>) < 1024) =
       (unat (be16_to_cpu False 16540) < 1024)"
proof -
  have r: "pool4_reachable (snd (pool4_register (\<lambda>i. True) (Some 0xC6336401) pool4_init))"
    by (rule pool4_reachable.register [OF pool4_reachable.init])
  have b: "be16_to_cpu False 16540 = 40000"
    by (simp add: be16_to_cpu_def swab16_def)
  show ?thesis
    using pool4_get_any_preserves_parity_and_range [OF r ex_get_any] r ex_get_any b
    by simp
qed


section \<open>Properties of the mark-keyed database\<close>

lemma find_table_no_mark:
  "\<forall>h. \<forall>t \<in> set (db d h). mark t \<noteq> mark' \<Longrightarrow> find_table hash_32 d mark' = None"
  by (auto simp: find_table_def find_None_iff)


text \<open>
  Claim C9. When \<^verbatim>\<open>find_table\<close> finds no table for the mark, as it does when no table of
  the database has the mark, \<^verbatim>\<open>pool4db_contains\<close> is true, whatever the address.
\<close>

theorem pool4db_contains_unknown_mark:
  "(find_table hash_32 d mark' = None \<longrightarrow>
      pool4db_contains pool4table_contains hash_32 d mark' addr)
   \<and> ((\<forall>h. \<forall>t \<in> set (db d h). mark t \<noteq> mark') \<longrightarrow>
      pool4db_contains pool4table_contains hash_32 d mark' addr)"
  by (simp add: pool4db_contains_def ESRCH_def find_table_no_mark)

theorem pool4db_contains_unknown_mark_witness:
  "find_table (\<lambda>m p. 0) \<lparr>db = (\<lambda>h. []), power = 4, values' = 0\<rparr> 7 = (None :: unit pool4_table option)
   \<and> pool4db_contains (\<lambda>t a. False) (\<lambda>m p. 0)
        \<lparr>db = (\<lambda>h. ([] :: unit pool4_table list)), power = 4, values' = 0\<rparr> 7
        \<lparr>tuple_address = 0xC6336401, l4_id = 1024\<rparr>"
  using pool4db_contains_unknown_mark
    [of "\<lambda>m p. 0" "\<lparr>db = (\<lambda>h. ([] :: unit pool4_table list)), power = 4, values' = 0\<rparr>" 7
        "\<lambda>t a. False" "\<lparr>tuple_address = 0xC6336401, l4_id = 1024\<rparr>"]
  by (simp add: find_table_def)

section \<open>Properties of the sessions and the BIB\<close>

subsection \<open>The TCP state machine\<close>

lemma set_state_same: "state (st_mem w session) = st \<Longrightarrow> set_state session st w = w"
  by (auto simp: set_state_def)

lemma state_session_renew [simp]:
  "state (st_mem (session_renew hz session t w) s) = state (st_mem w s)"
  by (simp add: session_renew_def list_del_byexpiry_def list_add_tail_byexpiry_def Let_def)

lemma state_set_state [simp]:
  "state (st_mem (set_state session st w) s) = (if s = session then st else state (st_mem w s))"
  by (simp add: set_state_def)

lemma queue_session_renew:
  "queue (expiry_base (session_renew hz session t w) q) =
     (if q = t then removeAll session (queue (expiry_base w q)) @ [session]
      else removeAll session (queue (expiry_base w q)))"
  by (simp add: session_renew_def list_del_byexpiry_def list_add_tail_byexpiry_def Let_def)

lemma expires_session_renew:
  "expires (st_mem (session_renew hz session t w) session) =
     jiffies w + scast (timeout (expiry_base w t) * hz)"
  by (simp add: session_renew_def list_del_byexpiry_def list_add_tail_byexpiry_def Let_def)

lemma expiry_base_set_state [simp]: "expiry_base (set_state session st w) = expiry_base w"
  by (simp add: set_state_def)

lemma expires_set_state [simp]:
  "expires (st_mem (set_state session st w) s) = expires (st_mem w s)"
  by (simp add: set_state_def)

lemma session_renew_spec: "session_renew hz session k w = spec_renew hz session k w"
proof -
  have "(\<lambda>t. (expiry_base w t)\<lparr>queue := removeAll session (queue (expiry_base w t))\<rparr>)
          (k := (expiry_base w k)\<lparr>queue := removeAll session (queue (expiry_base w k)) @ [session]\<rparr>)
      = (\<lambda>t. (expiry_base w t)
           \<lparr>queue := (if t = k then removeAll session (queue (expiry_base w t)) @ [session]
                       else removeAll session (queue (expiry_base w t)))\<rparr>)"
    by (rule ext) simp
  then show ?thesis
    by (simp add: session_renew_def spec_renew_def list_del_byexpiry_def
        list_add_tail_byexpiry_def Let_def)
qed

lemma state_same_record:
  "state (st_mem w session) = st \<Longrightarrow>
   w\<lparr>st_mem := (st_mem w)(session := (st_mem w session)\<lparr>state := st\<rparr>)\<rparr> = w"
  by auto

lemma state_spec_renew [simp]:
  "state (st_mem (spec_renew hz session k w) s) = state (st_mem w s)"
  by (simp add: spec_renew_def)

lemma tcp6_fsm_spec:
  "tcp6_fsm hz session h w =
     spec_apply hz session (spec_transition V6_packet (state (st_mem w session)) h) w"
  by (cases "state (st_mem w session)")
     (simp_all add: tcp6_fsm_def spec_apply_def session_renew_spec set_state_def
        state_same_record Let_def)

lemma tcp4_fsm_spec:
  "tcp4_fsm hz session h w =
     spec_apply hz session (spec_transition V4_packet (state (st_mem w session)) h) w"
  by (cases "state (st_mem w session)")
     (simp_all add: tcp4_fsm_def spec_apply_def session_renew_spec set_state_def
        state_same_record Let_def)

lemma tcp_fsm_spec:
  "tcp_fsm d hz session h w =
     spec_apply hz session (spec_transition d (state (st_mem w session)) h) w"
  by (cases d) (simp_all add: tcp6_fsm_spec tcp4_fsm_spec)

text \<open>
  Claim C1. For every state and every combination of the flags, \<^verbatim>\<open>tcp6_fsm\<close> does what
  the column of the table for packets from the IPv6 side says and \<^verbatim>\<open>tcp4_fsm\<close> what the
  column for packets from the IPv4 side says. The session gets the next state of the row.
  When the row names a queue, the session is the last element of that queue, behind the
  elements that were there, it is on no other queue, and its deadline is the current time
  plus the timeout of that queue. When the row names no queue, the queues and the
  deadline are as they were. No timeout and no other session changes.
\<close>

theorem tcp_fsm_realizes_table:
  "tcp_fsm d hz session h w =
     spec_apply hz session (spec_transition d (state (st_mem w session)) h) w
   \<and> state (st_mem (tcp_fsm d hz session h w) session) =
       fst (spec_transition d (state (st_mem w session)) h)
   \<and> (snd (spec_transition d (state (st_mem w session)) h) = Some k \<longrightarrow>
        queue (expiry_base (tcp_fsm d hz session h w) k) =
          removeAll session (queue (expiry_base w k)) @ [session]
        \<and> (\<forall>t. t \<noteq> k \<longrightarrow>
              queue (expiry_base (tcp_fsm d hz session h w) t) =
                removeAll session (queue (expiry_base w t)))
        \<and> expires (st_mem (tcp_fsm d hz session h w) session) =
            jiffies w + scast (timeout (expiry_base w k) * hz))
   \<and> (snd (spec_transition d (state (st_mem w session)) h) = None \<longrightarrow>
        expiry_base (tcp_fsm d hz session h w) = expiry_base w
        \<and> expires (st_mem (tcp_fsm d hz session h w) session) = expires (st_mem w session))
   \<and> (\<forall>t. timeout (expiry_base (tcp_fsm d hz session h w) t) = timeout (expiry_base w t))
   \<and> (\<forall>s. s \<noteq> session \<longrightarrow> st_mem (tcp_fsm d hz session h w) s = st_mem w s)"
  unfolding tcp_fsm_spec
  by (cases "snd (spec_transition d (state (st_mem w session)) h)")
     (simp_all add: spec_apply_def spec_renew_def Let_def)


theorem tcp_fsm_realizes_table_witness:
  "state (st_mem ex_syn_state 0) = V6_SYN_RCV
   \<and> queue (expiry_base ex_syn_state TCP_TRANS) = [0]
   \<and> queue (expiry_base ex_syn_state TCP_EST) = [1]
   \<and> expires (st_mem ex_syn_state 0) = 0
   \<and> spec_transition V4_packet V6_SYN_RCV \<lparr>syn = True, fin = False, rst = False\<rparr> =
       (ESTABLISHED, Some TCP_EST)
   \<and> state (st_mem (tcp4_fsm 100 0 \<lparr>syn = True, fin = False, rst = False\<rparr> ex_syn_state) 0) =
       ESTABLISHED
   \<and> queue (expiry_base (tcp4_fsm 100 0 \<lparr>syn = True, fin = False, rst = False\<rparr> ex_syn_state)
        TCP_EST) = [1, 0]
   \<and> queue (expiry_base (tcp4_fsm 100 0 \<lparr>syn = True, fin = False, rst = False\<rparr> ex_syn_state)
        TCP_TRANS) = []
   \<and> expires (st_mem (tcp4_fsm 100 0 \<lparr>syn = True, fin = False, rst = False\<rparr> ex_syn_state) 0) =
       721000
   \<and> state (st_mem ex_tcp_state 0) = ESTABLISHED
   \<and> spec_transition V6_packet ESTABLISHED \<lparr>syn = False, fin = True, rst = True\<rparr> =
       (V6_FIN_RCV, None)
   \<and> state (st_mem (tcp6_fsm 100 0 \<lparr>syn = False, fin = True, rst = True\<rparr> ex_tcp_state) 0) =
       V6_FIN_RCV
   \<and> expiry_base (tcp6_fsm 100 0 \<lparr>syn = False, fin = True, rst = True\<rparr> ex_tcp_state) =
       expiry_base ex_tcp_state
   \<and> expires (st_mem (tcp6_fsm 100 0 \<lparr>syn = False, fin = True, rst = True\<rparr> ex_tcp_state) 0) =
       expires (st_mem ex_tcp_state 0)"
proof -
  have a: "state (st_mem ex_syn_state 0) = V6_SYN_RCV"
    "queue (expiry_base ex_syn_state TCP_TRANS) = [0]"
    "queue (expiry_base ex_syn_state TCP_EST) = [1]"
    "expires (st_mem ex_syn_state 0) = 0"
    "timeout (expiry_base ex_syn_state TCP_EST) = 7200"
    "jiffies ex_syn_state = 1000"
    by (simp_all add: ex_syn_state_def ex_state_def ex_session_def)
  have b: "state (st_mem ex_tcp_state 0) = ESTABLISHED"
    by (simp add: ex_tcp_state_def ex_state_def ex_session_def)
  have t: "TCP_TRANS \<noteq> TCP_EST" by simp
  note v4 = tcp_fsm_realizes_table
        [where d = V4_packet and hz = 100 and session = 0 and w = ex_syn_state and k = TCP_EST
           and h = "\<lparr>syn = True, fin = False, rst = False\<rparr>", THEN conjunct2]
  note v6 = tcp_fsm_realizes_table
        [where d = V6_packet and hz = 100 and session = 0 and w = ex_tcp_state
           and h = "\<lparr>syn = False, fin = True, rst = True\<rparr>", THEN conjunct2]
  have "\<forall>t. t \<noteq> TCP_EST \<longrightarrow>
      queue (expiry_base (tcp4_fsm 100 0 \<lparr>syn = True, fin = False, rst = False\<rparr> ex_syn_state) t) =
        removeAll 0 (queue (expiry_base ex_syn_state t))"
    using v4 by (simp add: a)
  then have tr: "queue (expiry_base (tcp4_fsm 100 0 \<lparr>syn = True, fin = False, rst = False\<rparr>
      ex_syn_state) TCP_TRANS) = removeAll 0 (queue (expiry_base ex_syn_state TCP_TRANS))"
    using t by blast
  show ?thesis
    using v4 v6 tr by (simp add: a b)
qed

subsection \<open>The reaper\<close>

lemma st_mem_reap_session [simp]: "st_mem (reap_session session w) = st_mem w"
  by (simp add: reap_session_def list_del_byexpiry_def list_del_list_def
        hlist_del_bylocal_def hlist_del_byremote_def Let_def)

lemma st_live_reap_session [simp]: "st_live (reap_session session w) = st_live w - {session}"
  by (simp add: reap_session_def list_del_byexpiry_def list_del_list_def
        hlist_del_bylocal_def hlist_del_byremote_def Let_def)

lemma queue_reap_session [simp]:
  "queue (expiry_base (reap_session session w) t) = removeAll session (queue (expiry_base w t))"
  by (simp add: reap_session_def list_del_byexpiry_def list_del_list_def
        hlist_del_bylocal_def hlist_del_byremote_def Let_def)

lemma st_live_session_renew [simp]: "st_live (session_renew hz session t w) = st_live w"
  by (simp add: session_renew_def list_del_byexpiry_def list_add_tail_byexpiry_def Let_def)

lemma st_live_set_state [simp]: "st_live (set_state session st w) = st_live w"
  by (simp add: set_state_def)

lemma tcp_timeout_fsm_established:
  "state (st_mem w session) = ESTABLISHED \<Longrightarrow>
   tcp_timeout_fsm hz session w = (1, set_state session FOUR_MIN (session_renew hz session TCP_TRANS w))"
  by (simp add: tcp_timeout_fsm_def)

lemma tcp_timeout_fsm_other:
  "state (st_mem w session) \<noteq> ESTABLISHED \<Longrightarrow> tcp_timeout_fsm hz session w = (0, w)"
  by (simp add: tcp_timeout_fsm_def)

lemma clean_from_established:
  "time_after (jiffies w) (expires (st_mem w session)) \<Longrightarrow> state (st_mem w session) = ESTABLISHED \<Longrightarrow>
   clean_from hz q (session # rest) w =
     clean_from hz q (if q = TCP_TRANS \<and> rest \<noteq> [] then rest @ [session] else rest)
       (set_state session FOUR_MIN (session_renew hz session TCP_TRANS w))"
  by (subst clean_from.simps) (simp add: tcp_timeout_fsm_established)

lemma clean_from_other:
  "time_after (jiffies w) (expires (st_mem w session)) \<Longrightarrow> state (st_mem w session) \<noteq> ESTABLISHED \<Longrightarrow>
   clean_from hz q (session # rest) w = clean_from hz q rest (reap_session session w)"
  by (subst clean_from.simps) (simp add: tcp_timeout_fsm_other)

lemma clean_from_fresh:
  "\<not> time_after (jiffies w) (expires (st_mem w session)) \<Longrightarrow>
   clean_from hz q (session # rest) w = w"
  by (subst clean_from.simps) simp

text \<open>
  The list that the loop walks is the queue itself: when the walk is at the first element of
  a queue without repetitions, the list it goes on with is the queue as the body has left
  it, but for the one case where the renewed session is alone on the queue of
  \<open>TCP_TRANS\<close> and the loop ends.
\<close>

lemma walk_is_queue_after_reap:
  assumes "queue (expiry_base w q) = session # rest" and "distinct (session # rest)"
  shows "queue (expiry_base (reap_session session w) q) = rest"
  using assms by simp

lemma walk_is_queue_after_renew:
  assumes "queue (expiry_base w q) = session # rest" and "distinct (session # rest)"
  shows "queue (expiry_base (set_state session FOUR_MIN (session_renew hz session TCP_TRANS w)) q) =
           (if q = TCP_TRANS then rest @ [session] else rest)"
  using assms by (cases "q = TCP_TRANS") (simp_all add: queue_session_renew)

text \<open>An invariant-style induction principle for the loop.\<close>

lemma clean_from_preserves:
  assumes P: "P w"
    and renew: "\<And>hz w s. P w \<Longrightarrow> state (st_mem w s) = ESTABLISHED \<Longrightarrow>
                  P (set_state s FOUR_MIN (session_renew hz s TCP_TRANS w))"
    and reap: "\<And>w s. P w \<Longrightarrow> state (st_mem w s) \<noteq> ESTABLISHED \<Longrightarrow> P (reap_session s w)"
  shows "P (clean_from hz q l w)"
  using P
proof (induction hz q l w rule: clean_from.induct)
  case (1 hz q w)
  then show ?case by (simp add: clean_from.simps)
next
  case (2 hz q session rest w)
  show ?case
  proof (cases "time_after (jiffies w) (expires (st_mem w session))")
    case False
    with 2 show ?thesis by (simp add: clean_from_fresh)
  next
    case True
    show ?thesis
    proof (cases "state (st_mem w session) = ESTABLISHED")
      case est: True
      have "P (set_state session FOUR_MIN (session_renew hz session TCP_TRANS w))"
        using "2.prems" est by (rule renew)
      with "2.IH"(1) [OF True, of "(1, set_state session FOUR_MIN (session_renew hz session TCP_TRANS w))"]
      show ?thesis
        using True est by (simp add: clean_from_established tcp_timeout_fsm_established)
    next
      case other: False
      have "P (reap_session session w)"
        using "2.prems" other by (rule reap)
      with "2.IH"(2) [OF True, of "(0, w)"]
      show ?thesis
        using True other by (simp add: clean_from_other tcp_timeout_fsm_other)
    qed
  qed
qed

lemma clean_from_pool4: "pool4 (clean_from hz q l w) = pool4 w"
  by (rule clean_from_preserves [where P = "\<lambda>w'. pool4 w' = pool4 w"])
     (simp_all add: set_state_def session_renew_def list_del_byexpiry_def
        list_add_tail_byexpiry_def reap_session_def list_del_list_def hlist_del_bylocal_def
        hlist_del_byremote_def Let_def)

lemma clean_from_free_list:
  "free_udp_transport_addr (clean_from hz q l w) = free_udp_transport_addr w"
  by (rule clean_from_preserves
        [where P = "\<lambda>w'. free_udp_transport_addr w' = free_udp_transport_addr w"])
     (simp_all add: set_state_def session_renew_def list_del_byexpiry_def
        list_add_tail_byexpiry_def reap_session_def list_del_list_def hlist_del_bylocal_def
        hlist_del_byremote_def Let_def)

lemma clean_from_st_freed: "session \<notin> st_live w \<Longrightarrow> session \<notin> st_live (clean_from hz q l w)"
  by (rule clean_from_preserves [where P = "\<lambda>w'. session \<notin> st_live w'"]) simp_all

lemma clean_from_unqueued:
  assumes "state (st_mem w session) \<noteq> ESTABLISHED"
    and "\<forall>t. session \<notin> set (queue (expiry_base w t))"
  shows "\<forall>t. session \<notin> set (queue (expiry_base (clean_from hz q l w) t))"
proof -
  have "state (st_mem (clean_from hz q l w) session) \<noteq> ESTABLISHED
      \<and> (\<forall>t. session \<notin> set (queue (expiry_base (clean_from hz q l w) t)))"
    by (rule clean_from_preserves
          [where P = "\<lambda>w'. state (st_mem w' session) \<noteq> ESTABLISHED
                        \<and> (\<forall>t. session \<notin> set (queue (expiry_base w' t)))"])
       (use assms in \<open>auto simp: queue_session_renew\<close>)
  then show ?thesis by simp
qed

lemma bib_detached_reap_session:
  "bib_detached bib w \<Longrightarrow> bib_detached bib (reap_session s w)"
  by (simp add: bib_detached_def reap_session_def list_del_byexpiry_def list_del_list_def
        hlist_del_bylocal_def hlist_del_byremote_def Let_def)

lemma bib_detached_renew:
  "bib_detached bib w \<Longrightarrow> bib_detached bib (set_state s st (session_renew hz s t w))"
  by (simp add: bib_detached_def set_state_def session_renew_def list_del_byexpiry_def
        list_add_tail_byexpiry_def Let_def)

lemma clean_from_detached: "bib_detached bib w \<Longrightarrow> bib_detached bib (clean_from hz q l w)"
  by (rule clean_from_preserves [where P = "bib_detached bib"])
     (simp_all add: bib_detached_reap_session bib_detached_renew)

lemma reap_last_session:
  "sessions (bib_mem w (list_bib (st_mem w session))) = [session] \<Longrightarrow>
   bib_detached (list_bib (st_mem w session)) (reap_session session w)"
  by (simp add: bib_detached_def reap_session_def list_del_byexpiry_def list_del_list_def
        hlist_del_bylocal_def hlist_del_byremote_def Let_def)

lemma reap_other_session:
  "removeAll session (sessions (bib_mem w (list_bib (st_mem w session)))) \<noteq> [] \<Longrightarrow>
   bib_live (reap_session session w) = bib_live w \<and> hash6 (reap_session session w) = hash6 w
     \<and> hash4 (reap_session session w) = hash4 w"
  by (simp add: reap_session_def list_del_byexpiry_def list_del_list_def
        hlist_del_bylocal_def hlist_del_byremote_def Let_def)

text \<open>
  A session that is touched by no step, or that the walk finds not expired, is as it was
  when the loop ends.
\<close>

lemma sint_scast_up: "sint (scast (y :: 32 word) :: 64 word) = sint y"
  by (simp add: sint_up_scast is_up)

lemma time_after_renewed:
  "time_after j (j + scast (x :: 32 word)) = (sint x < 0)"
  by (simp add: time_after_def sint_scast_up)

lemma jiffies_reap_session [simp]: "jiffies (reap_session s w) = jiffies w"
  by (simp add: reap_session_def list_del_byexpiry_def list_del_list_def
        hlist_del_bylocal_def hlist_del_byremote_def Let_def)

lemma jiffies_renewed [simp]:
  "jiffies (set_state s st (session_renew hz s t w)) = jiffies w"
  by (simp add: set_state_def session_renew_def list_del_byexpiry_def
        list_add_tail_byexpiry_def Let_def)

lemma st_mem_renewed_other:
  "s \<noteq> session \<Longrightarrow> st_mem (set_state session st (session_renew hz session t w)) s = st_mem w s"
  by (simp add: set_state_def session_renew_def list_del_byexpiry_def
        list_add_tail_byexpiry_def Let_def)

lemma clean_from_keeps_unexpired:
  "\<not> time_after (jiffies w) (expires (st_mem w s)) \<Longrightarrow>
   st_mem (clean_from hz q l w) s = st_mem w s
   \<and> (s \<in> st_live (clean_from hz q l w)) = (s \<in> st_live w)"
proof (induction hz q l w rule: clean_from.induct)
  case (1 hz q w)
  show ?case by (simp add: clean_from.simps)
next
  case (2 hz q session rest w)
  show ?case
  proof (cases "time_after (jiffies w) (expires (st_mem w session))")
    case False
    then show ?thesis by (simp add: clean_from_fresh)
  next
    case True
    with "2.prems" have ne: "s \<noteq> session" by auto
    show ?thesis
    proof (cases "state (st_mem w session) = ESTABLISHED")
      case est: True
      let ?w1 = "set_state session FOUR_MIN (session_renew hz session TCP_TRANS w)"
      have m: "st_mem ?w1 s = st_mem w s"
        using ne by (rule st_mem_renewed_other)
      then have "\<not> time_after (jiffies ?w1) (expires (st_mem ?w1 s))"
        using "2.prems" by simp
      moreover have f: "(1, ?w1) = tcp_timeout_fsm hz session w"
        using est by (simp add: tcp_timeout_fsm_established)
      ultimately have "st_mem (clean_from hz q
            (if q = TCP_TRANS \<and> rest \<noteq> [] then rest @ [session] else rest) ?w1) s = st_mem ?w1 s
          \<and> (s \<in> st_live (clean_from hz q
            (if q = TCP_TRANS \<and> rest \<noteq> [] then rest @ [session] else rest) ?w1)) = (s \<in> st_live ?w1)"
        using "2.IH"(1) [OF True refl f one_neq_zero] by blast
      then show ?thesis
        using True est m by (simp add: clean_from_established)
    next
      case other: False
      have "\<not> time_after (jiffies (reap_session session w)) (expires (st_mem (reap_session session w) s))"
        using "2.prems" by simp
      moreover have f: "(0, w) = tcp_timeout_fsm hz session w"
        using other by (simp add: tcp_timeout_fsm_other)
      moreover have "\<not> (0 :: int) \<noteq> 0" by simp
      ultimately have "st_mem (clean_from hz q rest (reap_session session w)) s = st_mem (reap_session session w) s
          \<and> (s \<in> st_live (clean_from hz q rest (reap_session session w))) = (s \<in> st_live (reap_session session w))"
        using "2.IH"(2) [OF True refl f] by blast
      then show ?thesis
        using True other ne by (simp add: clean_from_other)
    qed
  qed
qed

lemma clean_from_untouched:
  "s \<notin> set l \<Longrightarrow>
   st_mem (clean_from hz q l w) s = st_mem w s
   \<and> (s \<in> st_live (clean_from hz q l w)) = (s \<in> st_live w)"
proof (induction hz q l w rule: clean_from.induct)
  case (1 hz q w)
  show ?case by (simp add: clean_from.simps)
next
  case (2 hz q session rest w)
  then have ne: "s \<noteq> session" and nr: "s \<notin> set rest" by auto
  show ?case
  proof (cases "time_after (jiffies w) (expires (st_mem w session))")
    case False
    then show ?thesis by (simp add: clean_from_fresh)
  next
    case True
    show ?thesis
    proof (cases "state (st_mem w session) = ESTABLISHED")
      case est: True
      let ?w1 = "set_state session FOUR_MIN (session_renew hz session TCP_TRANS w)"
      have m: "st_mem ?w1 s = st_mem w s"
        using ne by (rule st_mem_renewed_other)
      have "s \<notin> set (if q = TCP_TRANS \<and> rest \<noteq> [] then rest @ [session] else rest)"
        using ne nr by simp
      moreover have f: "(1, ?w1) = tcp_timeout_fsm hz session w"
        using est by (simp add: tcp_timeout_fsm_established)
      ultimately have "st_mem (clean_from hz q
            (if q = TCP_TRANS \<and> rest \<noteq> [] then rest @ [session] else rest) ?w1) s = st_mem ?w1 s
          \<and> (s \<in> st_live (clean_from hz q
            (if q = TCP_TRANS \<and> rest \<noteq> [] then rest @ [session] else rest) ?w1)) = (s \<in> st_live ?w1)"
        using "2.IH"(1) [OF True refl f one_neq_zero] by blast
      then show ?thesis
        using True est m by (simp add: clean_from_established)
    next
      case other: False
      have f: "(0, w) = tcp_timeout_fsm hz session w"
        using other by (simp add: tcp_timeout_fsm_other)
      have z: "\<not> (0 :: int) \<noteq> 0" by simp
      have "st_mem (clean_from hz q rest (reap_session session w)) s = st_mem (reap_session session w) s
          \<and> (s \<in> st_live (clean_from hz q rest (reap_session session w))) = (s \<in> st_live (reap_session session w))"
        using "2.IH"(2) [OF True refl f z nr] .
      then show ?thesis
        using True other ne by (simp add: clean_from_other)
    qed
  qed
qed


text \<open>
  Claim C4. When the reaper comes to an expired session in state \<open>ESTABLISHED\<close>,
  \<^verbatim>\<open>tcp_timeout_fsm\<close> returns 1: the session stays allocated, its state is \<open>FOUR_MIN\<close>, it
  is the last element of the queue of \<open>TCP_TRANS\<close> and on no other queue, its deadline
  is the current time plus the timeout of \<open>TCP_TRANS\<close>, and the loop goes on with the
  next session; the session is still allocated and in state \<open>FOUR_MIN\<close> when the loop
  ends, if the timeout of \<open>TCP_TRANS\<close> is not negative or the loop walks another queue.
  When it comes to an expired session in any other state,
  \<^verbatim>\<open>tcp_timeout_fsm\<close> returns 0 and changes nothing, and the session is freed: at the end
  of the loop it is not allocated and on no queue.
\<close>

theorem reaper_grace_only_for_established:
  assumes expired: "time_after (jiffies w) (expires (st_mem w session))"
  shows "(state (st_mem w session) = ESTABLISHED \<longrightarrow>
            fst (tcp_timeout_fsm hz session w) = 1
            \<and> clean_from hz q (session # rest) w =
                clean_from hz q (if q = TCP_TRANS \<and> rest \<noteq> [] then rest @ [session] else rest)
                  (snd (tcp_timeout_fsm hz session w))
            \<and> st_live (snd (tcp_timeout_fsm hz session w)) = st_live w
            \<and> state (st_mem (snd (tcp_timeout_fsm hz session w)) session) = FOUR_MIN
            \<and> queue (expiry_base (snd (tcp_timeout_fsm hz session w)) TCP_TRANS) =
                removeAll session (queue (expiry_base w TCP_TRANS)) @ [session]
            \<and> (\<forall>t. t \<noteq> TCP_TRANS \<longrightarrow>
                  session \<notin> set (queue (expiry_base (snd (tcp_timeout_fsm hz session w)) t)))
            \<and> expires (st_mem (snd (tcp_timeout_fsm hz session w)) session) =
                jiffies w + scast (timeout (expiry_base w TCP_TRANS) * hz)
            \<and> (0 \<le> sint (timeout (expiry_base w TCP_TRANS) * hz)
                  \<or> q \<noteq> TCP_TRANS \<and> session \<notin> set rest \<longrightarrow>
                (session \<in> st_live (clean_from hz q (session # rest) w)) = (session \<in> st_live w)
                \<and> state (st_mem (clean_from hz q (session # rest) w) session) = FOUR_MIN))
       \<and> (state (st_mem w session) \<noteq> ESTABLISHED \<longrightarrow>
            tcp_timeout_fsm hz session w = (0, w)
            \<and> clean_from hz q (session # rest) w = clean_from hz q rest (reap_session session w)
            \<and> session \<notin> st_live (clean_from hz q (session # rest) w)
            \<and> (\<forall>t. session \<notin> set (queue (expiry_base (clean_from hz q (session # rest) w) t))))"
proof (intro conjI impI)
  assume est: "state (st_mem w session) = ESTABLISHED"
  let ?w1 = "set_state session FOUR_MIN (session_renew hz session TCP_TRANS w)"
  have fsm: "tcp_timeout_fsm hz session w = (1, ?w1)"
    using est by (rule tcp_timeout_fsm_established)
  show "fst (tcp_timeout_fsm hz session w) = 1"
    by (simp add: fsm)
  show "clean_from hz q (session # rest) w =
      clean_from hz q (if q = TCP_TRANS \<and> rest \<noteq> [] then rest @ [session] else rest)
        (snd (tcp_timeout_fsm hz session w))"
    unfolding fsm snd_conv using expired est by (rule clean_from_established)
  show "st_live (snd (tcp_timeout_fsm hz session w)) = st_live w"
    by (simp add: fsm)
  show "state (st_mem (snd (tcp_timeout_fsm hz session w)) session) = FOUR_MIN"
    by (simp add: fsm)
  show "queue (expiry_base (snd (tcp_timeout_fsm hz session w)) TCP_TRANS) =
      removeAll session (queue (expiry_base w TCP_TRANS)) @ [session]"
    by (simp add: fsm queue_session_renew)
  show "\<forall>t. t \<noteq> TCP_TRANS \<longrightarrow>
      session \<notin> set (queue (expiry_base (snd (tcp_timeout_fsm hz session w)) t))"
    by (simp add: fsm queue_session_renew)
  show "expires (st_mem (snd (tcp_timeout_fsm hz session w)) session) =
      jiffies w + scast (timeout (expiry_base w TCP_TRANS) * hz)"
    by (simp add: fsm expires_session_renew)
  have step: "clean_from hz q (session # rest) w =
      clean_from hz q (if q = TCP_TRANS \<and> rest \<noteq> [] then rest @ [session] else rest) ?w1"
    using expired est by (rule clean_from_established)
  assume "0 \<le> sint (timeout (expiry_base w TCP_TRANS) * hz)
      \<or> q \<noteq> TCP_TRANS \<and> session \<notin> set rest"
  then have "st_mem (clean_from hz q (session # rest) w) session = st_mem ?w1 session
      \<and> (session \<in> st_live (clean_from hz q (session # rest) w)) = (session \<in> st_live ?w1)"
  proof
    assume "0 \<le> sint (timeout (expiry_base w TCP_TRANS) * hz)"
    then have "\<not> time_after (jiffies ?w1) (expires (st_mem ?w1 session))"
      by (simp add: expires_session_renew time_after_renewed)
    then show ?thesis
      unfolding step by (rule clean_from_keeps_unexpired)
  next
    assume "q \<noteq> TCP_TRANS \<and> session \<notin> set rest"
    then have "session \<notin> set (if q = TCP_TRANS \<and> rest \<noteq> [] then rest @ [session] else rest)"
      by simp
    then show ?thesis
      unfolding step by (rule clean_from_untouched)
  qed
  then show "session \<in> st_live (clean_from hz q (session # rest) w) \<longleftrightarrow> session \<in> st_live w"
    and "state (st_mem (clean_from hz q (session # rest) w) session) = FOUR_MIN"
    by simp_all
next
  assume other: "state (st_mem w session) \<noteq> ESTABLISHED"
  show "tcp_timeout_fsm hz session w = (0, w)"
    using other by (rule tcp_timeout_fsm_other)
  show step: "clean_from hz q (session # rest) w = clean_from hz q rest (reap_session session w)"
    using expired other by (rule clean_from_other)
  show "session \<notin> st_live (clean_from hz q (session # rest) w)"
    unfolding step by (rule clean_from_st_freed) simp
  show "\<forall>t. session \<notin> set (queue (expiry_base (clean_from hz q (session # rest) w) t))"
    unfolding step by (rule clean_from_unqueued) (use other in simp_all)
qed

theorem reaper_grace_only_for_established_witness:
  "time_after (jiffies ex_tcp_state) (expires (st_mem ex_tcp_state 0))
   \<and> state (st_mem ex_tcp_state 0) = ESTABLISHED
   \<and> fst (tcp_timeout_fsm 100 0 ex_tcp_state) = 1
   \<and> clean_expired_sessions_tcp 100 TCP_EST ex_tcp_state = snd (tcp_timeout_fsm 100 0 ex_tcp_state)
   \<and> 0 \<in> st_live (clean_expired_sessions_tcp 100 TCP_EST ex_tcp_state)
   \<and> state (st_mem (clean_expired_sessions_tcp 100 TCP_EST ex_tcp_state) 0) = FOUR_MIN
   \<and> queue (expiry_base (clean_expired_sessions_tcp 100 TCP_EST ex_tcp_state) TCP_TRANS) = [0]
   \<and> 0 \<notin> set (queue (expiry_base (clean_expired_sessions_tcp 100 TCP_EST ex_tcp_state) TCP_EST))
   \<and> expires (st_mem (clean_expired_sessions_tcp 100 TCP_EST ex_tcp_state) 0) = 1000 + 240 * 100
   \<and> time_after (jiffies ex_state) (expires (st_mem ex_state 0))
   \<and> state (st_mem ex_state 0) = CLOSED
   \<and> fst (tcp_timeout_fsm 100 0 ex_state) = 0
   \<and> 0 \<notin> st_live (clean_expired_sessions 100 UDP_DEFAULT ex_state)
   \<and> 0 \<notin> set (queue (expiry_base (clean_expired_sessions 100 UDP_DEFAULT ex_state) UDP_DEFAULT))"
proof -
  have e1: "time_after (jiffies ex_tcp_state) (expires (st_mem ex_tcp_state 0))"
    by (simp add: ex_tcp_state_def ex_state_def ex_session_def time_after_def)
  have s1: "state (st_mem ex_tcp_state 0) = ESTABLISHED"
    by (simp add: ex_tcp_state_def ex_state_def ex_session_def)
  have q1: "queue (expiry_base ex_tcp_state TCP_EST) = [0]"
    "queue (expiry_base ex_tcp_state TCP_TRANS) = []"
    "timeout (expiry_base ex_tcp_state TCP_TRANS) = 240" "st_live ex_tcp_state = {0}"
    by (simp_all add: ex_tcp_state_def ex_state_def)
  have j1: "jiffies ex_tcp_state = 1000"
    by (simp add: ex_tcp_state_def ex_state_def)
  have e2: "time_after (jiffies ex_state) (expires (st_mem ex_state 0))"
    by (simp add: ex_state_def ex_session_def time_after_def)
  have s2: "state (st_mem ex_state 0) = CLOSED"
    by (simp add: ex_state_def ex_session_def)
  have q2: "queue (expiry_base ex_state UDP_DEFAULT) = [0]"
    by (simp add: ex_state_def)
  show ?thesis
    using reaper_grace_only_for_established [OF e1, of 100 TCP_EST "[]"]
      reaper_grace_only_for_established [OF e2, of 100 UDP_DEFAULT "[]"]
    by (simp add: e1 s1 q1 e2 s2 q2 clean_expired_sessions_tcp_def clean_expired_sessions_def
        clean_from.simps(1)) (simp add: j1)
qed

text \<open>
  Claim C3, as amended. When the reaper removes an expired session that is the only
  session of its BIB, the BIB entry is freed and is on no chain of \<open>hash6\<close> and of
  \<open>hash4\<close> when the loop ends. The reaper gives nothing back to a pool: the state of
  \<^verbatim>\<open>pool4.c\<close> and the list of free transport addresses are as they were.
\<close>

theorem reaper_frees_last_bib_keeps_pool:
  assumes expired: "time_after (jiffies w) (expires (st_mem w session))"
    and other: "state (st_mem w session) \<noteq> ESTABLISHED"
    and last: "sessions (bib_mem w (list_bib (st_mem w session))) = [session]"
  shows "session \<notin> st_live (clean_from hz q (session # rest) w)
       \<and> list_bib (st_mem w session) \<notin> bib_live (clean_from hz q (session # rest) w)
       \<and> (\<forall>h. list_bib (st_mem w session) \<notin> set (hash6 (clean_from hz q (session # rest) w) h))
       \<and> (\<forall>h. list_bib (st_mem w session) \<notin> set (hash4 (clean_from hz q (session # rest) w) h))
       \<and> pool4 (clean_from hz q (session # rest) w) = pool4 w
       \<and> free_udp_transport_addr (clean_from hz q (session # rest) w) = free_udp_transport_addr w"
proof -
  have step: "clean_from hz q (session # rest) w = clean_from hz q rest (reap_session session w)"
    using expired other by (rule clean_from_other)
  have "bib_detached (list_bib (st_mem w session)) (reap_session session w)"
    using last by (rule reap_last_session)
  then have "bib_detached (list_bib (st_mem w session)) (clean_from hz q (session # rest) w)"
    unfolding step by (rule clean_from_detached)
  moreover have "session \<notin> st_live (clean_from hz q (session # rest) w)"
    unfolding step by (rule clean_from_st_freed) simp
  ultimately show ?thesis
    by (simp add: bib_detached_def clean_from_pool4 clean_from_free_list)
qed


theorem reaper_frees_last_bib_keeps_pool_witness:
  "time_after (jiffies ex_state) (expires (st_mem ex_state 0))
   \<and> state (st_mem ex_state 0) \<noteq> ESTABLISHED
   \<and> list_bib (st_mem ex_state 0) = 0
   \<and> sessions (bib_mem ex_state 0) = [0]
   \<and> 0 \<in> bib_live ex_state
   \<and> 0 \<notin> st_live (clean_expired_sessions 100 UDP_DEFAULT ex_state)
   \<and> 0 \<notin> bib_live (clean_expired_sessions 100 UDP_DEFAULT ex_state)
   \<and> 0 \<notin> set (hash6 (clean_expired_sessions 100 UDP_DEFAULT ex_state) 40001)
   \<and> 0 \<notin> set (hash4 (clean_expired_sessions 100 UDP_DEFAULT ex_state) 1024)
   \<and> pool4 (clean_expired_sessions 100 UDP_DEFAULT ex_state) = ex_pool4
   \<and> free_udp_transport_addr (clean_expired_sessions 100 UDP_DEFAULT ex_state) = []"
proof -
  have e: "time_after (jiffies ex_state) (expires (st_mem ex_state 0))"
    by (simp add: ex_state_def ex_session_def time_after_def)
  have s: "state (st_mem ex_state 0) \<noteq> ESTABLISHED"
    by (simp add: ex_state_def ex_session_def)
  have b: "list_bib (st_mem ex_state 0) = 0"
    by (simp add: ex_state_def ex_session_def)
  have l: "sessions (bib_mem ex_state (list_bib (st_mem ex_state 0))) = [0]"
    by (simp add: ex_state_def ex_bib_def)
  have q: "queue (expiry_base ex_state UDP_DEFAULT) = [0]" "pool4 ex_state = ex_pool4"
    "free_udp_transport_addr ex_state = []" "0 \<in> bib_live ex_state"
    by (simp_all add: ex_state_def)
  show ?thesis
    using reaper_frees_last_bib_keeps_pool [OF e s l, of 100 UDP_DEFAULT "[]"] l
    by (simp add: e s q b clean_expired_sessions_def)
qed

text \<open>
  Claim C3 as it is stated fails. In the example state the BIB entry 0 has the IPv4
  transport address 198.51.100.1 port 1024, taken from the pool, and the expired session 0
  is its only session. After the reaper the BIB entry is freed, and port 1024 is not on
  the list of free ports of its section of the node, nor is there a free transport address.
\<close>

theorem reaper_pool_return_counterexample:
  "time_after (jiffies ex_state) (expires (st_mem ex_state 0))
   \<and> state (st_mem ex_state 0) = CLOSED
   \<and> list_bib (st_mem ex_state 0) = 0
   \<and> sessions (bib_mem ex_state 0) = [0]
   \<and> local4_addr (bib_mem ex_state 0) = 0xC6336401
   \<and> local4_port (bib_mem ex_state 0) = 1024
   \<and> 0 \<notin> st_live (clean_expired_sessions 100 UDP_DEFAULT ex_state)
   \<and> 0 \<notin> bib_live (clean_expired_sessions 100 UDP_DEFAULT ex_state)
   \<and> get_pool_node (udp (pool4 (clean_expired_sessions 100 UDP_DEFAULT ex_state))) 0xC6336401 = Some 0
   \<and> 1024 \<notin> set (free_ports (section_of (udp (pool4 (clean_expired_sessions 100 UDP_DEFAULT ex_state)) ! 0)
                     (get_section \<lparr>tuple_address = 0xC6336401, l4_id = 1024\<rparr>)))
   \<and> free_udp_transport_addr (clean_expired_sessions 100 UDP_DEFAULT ex_state) = []"
proof -
  have e: "time_after (jiffies ex_state) (expires (st_mem ex_state 0))"
    by (simp add: ex_state_def ex_session_def time_after_def)
  have s: "state (st_mem ex_state 0) = CLOSED" "list_bib (st_mem ex_state 0) = 0"
    by (simp_all add: ex_state_def ex_session_def)
  have b: "sessions (bib_mem ex_state 0) = [0]" "local4_addr (bib_mem ex_state 0) = 0xC6336401"
    "local4_port (bib_mem ex_state 0) = 1024"
    by (simp_all add: ex_state_def ex_bib_def)
  have q: "queue (expiry_base ex_state UDP_DEFAULT) = [0]"
    by (simp add: ex_state_def)
  have step: "clean_expired_sessions 100 UDP_DEFAULT ex_state = reap_session 0 ex_state"
    using e s by (simp add: clean_expired_sessions_def q clean_from_other clean_from.simps(1))
  have d: "bib_detached 0 (reap_session 0 ex_state)"
    using reap_last_session [of ex_state 0] s b by simp
  have p: "pool4 (clean_expired_sessions 100 UDP_DEFAULT ex_state) = ex_pool4"
    by (simp add: clean_expired_sessions_def clean_from_pool4 ex_state_def)
  have f: "free_udp_transport_addr (clean_expired_sessions 100 UDP_DEFAULT ex_state) = []"
    by (simp add: clean_expired_sessions_def clean_from_free_list ex_state_def)
  have n: "get_pool_node (udp ex_pool4) 0xC6336401 = Some 0"
    by (simp add: ex_pool4_def new_pool_node_def Let_def)
  have g: "get_section \<lparr>tuple_address = 0xC6336401, l4_id = 1024\<rparr> = Even_high"
    by (simp add: get_section_def)
  have fp: "free_ports (even_high (udp ex_pool4 ! 0)) = []"
    by (simp add: ex_pool4_def Let_def)
  have l: "0 \<notin> st_live (clean_expired_sessions 100 UDP_DEFAULT ex_state)"
    "0 \<notin> bib_live (clean_expired_sessions 100 UDP_DEFAULT ex_state)"
    using d by (simp_all add: step bib_detached_def)
  show ?thesis
    by (simp add: e s b l p f n g fp)
qed

subsection \<open>Creation of a BIB entry with its first session\<close>

lemma hash6_ex: "nat64_hash6 (0x20010db8, 0, 0, 1) 40000 = 40001"
  by (simp add: nat64_hash6_def)

lemma bib_session_create_no_session:
  assumes "get_tranport_addr (free_udp_transport_addr w) = (Some ta, free')"
  shows "bib_session_create get_tranport_addr in4_pton big_endian hz (Some bib) None
           saddr in6_daddr daddr sport dport protocol type' w =
         (None,
          w\<lparr>free_udp_transport_addr := free',
            bib_live := bib_live w - {bib},
            bib_mem := (bib_mem w)
              (bib := \<lparr>type = protocol, remote6_addr = saddr, local4_addr = in4_pton (ta_address ta),
                       remote6_port = sport, local4_port = be16_to_cpu big_endian (ta_port ta),
                       sessions = []\<rparr>),
            hash6 := (hash6 w)(nat64_hash6 saddr sport := bib # hash6 w (nat64_hash6 saddr sport)),
            hash4 := (hash4 w)(be16_to_cpu big_endian (ta_port ta) :=
                        bib # hash4 w (be16_to_cpu big_endian (ta_port ta)))\<rparr>)"
  using assms
  by (simp add: bib_session_create_def bib_create_def session_create_def
      hlist_add_head_byremote_def hlist_add_head_bylocal_def)

lemma bib_session_create_tcp_eq:
  "bib_session_create_tcp = bib_session_create"
proof -
  have s: "session_create_tcp = session_create"
    by (intro ext) (simp add: session_create_tcp_def)
  have b: "bib_create_tcp = bib_create"
    by (intro ext) (simp add: bib_create_tcp_def)
  show ?thesis
    by (intro ext) (unfold bib_session_create_tcp_def bib_session_create_def s b, rule refl)
qed

lemma bib_session_create_no_session_linked:
  assumes "get_tranport_addr (free_udp_transport_addr w) = (Some ta, free')"
    and "r = bib_session_create get_tranport_addr in4_pton big_endian hz (Some bib) None
           saddr in6_daddr daddr sport dport protocol type' w"
  shows "fst r = None
       \<and> bib \<notin> bib_live (snd r)
       \<and> hash6 (snd r) (nat64_hash6 saddr sport) = bib # hash6 w (nat64_hash6 saddr sport)
       \<and> hash4 (snd r) (be16_to_cpu big_endian (ta_port ta)) =
           bib # hash4 w (be16_to_cpu big_endian (ta_port ta))
       \<and> bib_ipv6_lookup saddr sport protocol (snd r) = Some bib
       \<and> bib_ipv4_lookup (in4_pton (ta_address ta)) (be16_to_cpu big_endian (ta_port ta))
           protocol (snd r) = Some bib
       \<and> free_udp_transport_addr (snd r) = free'"
  unfolding assms(2)
    bib_session_create_no_session
      [where get_tranport_addr = get_tranport_addr and w = w and ta = ta and free' = free',
        OF assms(1)]
  by (simp add: bib_ipv6_lookup_def bib_ipv4_lookup_def nat64_hash4_def)

text \<open>
  Claim C7 does not hold of the code. When a transport address was drawn and the BIB
  entry created and linked on both hash tables, but the session cannot be allocated,
  \<^verbatim>\<open>bib_session_create\<close> and \<^verbatim>\<open>bib_session_create_tcp\<close> return NULL and free the block
  of the BIB entry while it is still linked: the freed block is the first element of its
  chain of \<open>hash6\<close> and of its chain of \<open>hash4\<close>, and \<^verbatim>\<open>bib_ipv6_lookup\<close> and
  \<^verbatim>\<open>bib_ipv4_lookup\<close> return it. The transport address is not given back either: the
  free list is as \<open>get_tranport_addr\<close> left it.
\<close>

theorem bib_session_create_failure_leaves_freed_bib_linked:
  assumes "get_tranport_addr (free_udp_transport_addr w) = (Some ta, free')"
    and "r = bib_session_create get_tranport_addr in4_pton big_endian hz (Some bib) None
           saddr in6_daddr daddr sport dport protocol type' w
         \<or> r = bib_session_create_tcp get_tranport_addr in4_pton big_endian hz (Some bib) None
           saddr in6_daddr daddr sport dport protocol type' w"
  shows "fst r = None
       \<and> bib \<notin> bib_live (snd r)
       \<and> hash6 (snd r) (nat64_hash6 saddr sport) = bib # hash6 w (nat64_hash6 saddr sport)
       \<and> hash4 (snd r) (be16_to_cpu big_endian (ta_port ta)) =
           bib # hash4 w (be16_to_cpu big_endian (ta_port ta))
       \<and> bib_ipv6_lookup saddr sport protocol (snd r) = Some bib
       \<and> bib_ipv4_lookup (in4_pton (ta_address ta)) (be16_to_cpu big_endian (ta_port ta))
           protocol (snd r) = Some bib
       \<and> free_udp_transport_addr (snd r) = free'"
proof -
  have "r = bib_session_create get_tranport_addr in4_pton big_endian hz (Some bib) None
           saddr in6_daddr daddr sport dport protocol type' w"
    using assms(2) by (simp add: bib_session_create_tcp_eq)
  with assms(1) show ?thesis
    by (rule bib_session_create_no_session_linked)
qed

theorem bib_session_create_failure_leaves_freed_bib_linked_witness:
  "pop_transport_addr (free_udp_transport_addr ex_empty_state) =
     (Some \<lparr>ta_address = ''198.51.100.1'', ta_port = 4\<rparr>, [])
   \<and> be16_to_cpu False 4 = 1024
   \<and> nat64_hash6 (0x20010db8, 0, 0, 1) 40000 = 40001
   \<and> hash6 ex_empty_state 40001 = []
   \<and> hash4 ex_empty_state 1024 = []
   \<and> bib_ipv4_lookup 0xC6336401 1024 17 ex_empty_state = None
   \<and> fst (bib_session_create pop_transport_addr (\<lambda>_. 0xC6336401) False 100 (Some 0) None
            (0x20010db8, 0, 0, 1) (0x0064ff9b, 0, 0, 0xC6336402) 0xC6336402 40000 53 17
            UDP_DEFAULT ex_empty_state) = None
   \<and> 0 \<notin> bib_live (snd (bib_session_create pop_transport_addr (\<lambda>_. 0xC6336401) False 100 (Some 0) None
            (0x20010db8, 0, 0, 1) (0x0064ff9b, 0, 0, 0xC6336402) 0xC6336402 40000 53 17
            UDP_DEFAULT ex_empty_state))
   \<and> hash6 (snd (bib_session_create pop_transport_addr (\<lambda>_. 0xC6336401) False 100 (Some 0) None
            (0x20010db8, 0, 0, 1) (0x0064ff9b, 0, 0, 0xC6336402) 0xC6336402 40000 53 17
            UDP_DEFAULT ex_empty_state)) 40001 = [0]
   \<and> hash4 (snd (bib_session_create pop_transport_addr (\<lambda>_. 0xC6336401) False 100 (Some 0) None
            (0x20010db8, 0, 0, 1) (0x0064ff9b, 0, 0, 0xC6336402) 0xC6336402 40000 53 17
            UDP_DEFAULT ex_empty_state)) 1024 = [0]
   \<and> bib_ipv6_lookup (0x20010db8, 0, 0, 1) 40000 17
        (snd (bib_session_create pop_transport_addr (\<lambda>_. 0xC6336401) False 100 (Some 0) None
            (0x20010db8, 0, 0, 1) (0x0064ff9b, 0, 0, 0xC6336402) 0xC6336402 40000 53 17
            UDP_DEFAULT ex_empty_state)) = Some 0
   \<and> bib_ipv4_lookup 0xC6336401 1024 17
        (snd (bib_session_create pop_transport_addr (\<lambda>_. 0xC6336401) False 100 (Some 0) None
            (0x20010db8, 0, 0, 1) (0x0064ff9b, 0, 0, 0xC6336402) 0xC6336402 40000 53 17
            UDP_DEFAULT ex_empty_state)) = Some 0
   \<and> free_udp_transport_addr
        (snd (bib_session_create pop_transport_addr (\<lambda>_. 0xC6336401) False 100 (Some 0) None
            (0x20010db8, 0, 0, 1) (0x0064ff9b, 0, 0, 0xC6336402) 0xC6336402 40000 53 17
            UDP_DEFAULT ex_empty_state)) = []"
proof -
  have p: "pop_transport_addr (free_udp_transport_addr ex_empty_state) =
     (Some \<lparr>ta_address = ''198.51.100.1'', ta_port = 4\<rparr>, [])"
    by (simp add: pop_transport_addr_def ex_empty_state_def)
  have sw: "be16_to_cpu False 4 = 1024"
    by (simp add: be16_to_cpu_def swab16_def)
  have e: "hash6 ex_empty_state 40001 = []" "hash4 ex_empty_state 1024 = []"
    "bib_ipv4_lookup 0xC6336401 1024 17 ex_empty_state = None"
    by (simp_all add: ex_empty_state_def bib_ipv4_lookup_def nat64_hash4_def)
  show ?thesis
    using bib_session_create_failure_leaves_freed_bib_linked
        [where get_tranport_addr = pop_transport_addr and w = ex_empty_state
           and in4_pton = "\<lambda>_. 0xC6336401" and big_endian = False and hz = 100 and bib = 0
           and saddr = "(0x20010db8, 0, 0, 1)" and ?in6_daddr = "(0x0064ff9b, 0, 0, 0xC6336402)"
           and daddr = "0xC6336402" and sport = 40000 and dport = 53 and protocol = 17
           and type' = UDP_DEFAULT, OF p disjI1 [OF refl]]
    by (simp add: p sw hash6_ex e)
qed


end
